theory Spec2Isabelle
  imports Main "HOL-Library.Char_ord" "HOL-Library.List_Lexorder" "HOL-Library.Sublist"
begin

section \<open>JavaScript values used by the service worker\<close>

text \<open>
  Strings are lists of 8-bit code units. With \<open>Char_ord\<close> and \<open>List_Lexorder\<close> the order
  on strings is the code-unit lexicographic order that \<open>Array.prototype.sort\<close> uses by
  default (a proper prefix is smaller).

  A value that is a string or \<open>null\<close>/\<open>undefined\<close> is a \<open>string option\<close>. JavaScript
  treats \<open>null\<close> and the empty string as falsy; every other string is truthy.
\<close>

definition truthy :: "string option \<Rightarrow> bool" where
  "truthy v = (case v of None \<Rightarrow> False | Some s \<Rightarrow> s \<noteq> [])"

text \<open>The expression \<open>v || null\<close>.\<close>

definition or_null :: "string option \<Rightarrow> string option" where
  "or_null v = (if truthy v then v else None)"

text \<open>\<open>s.startsWith(p)\<close> is \<^const>\<open>prefix\<close> \<open>p s\<close>; \<open>s.includes(sub)\<close> searches every offset.\<close>

fun str_includes :: "string \<Rightarrow> string \<Rightarrow> bool" where
  "str_includes [] sub = (sub = [])"
| "str_includes (c # cs) sub = (prefix sub (c # cs) \<or> str_includes cs sub)"

text \<open>
  The regular expression \<open>/totem-cache-(.+)/\<close> is not anchored: it matches at the leftmost
  offset where the literal is followed by at least one character other than a line
  terminator, and the greedy group captures up to the next line terminator.
\<close>

definition is_line_terminator :: "char \<Rightarrow> bool" where
  "is_line_terminator c = (c = CHR 0x0A \<or> c = CHR 0x0D)"

definition PREFIX :: string where
  "PREFIX = ''totem-cache-''"

fun version_match :: "string \<Rightarrow> string option" where
  "version_match [] = None"
| "version_match (c # cs) =
     (if prefix PREFIX (c # cs) \<and>
         (case drop (length PREFIX) (c # cs) of [] \<Rightarrow> False | d # _ \<Rightarrow> \<not> is_line_terminator d)
      then Some (takeWhile (\<lambda>d. \<not> is_line_terminator d) (drop (length PREFIX) (c # cs)))
      else version_match cs)"

section \<open>Responses, caches and the cache storage\<close>

text \<open>
  A response body is either text that is not a JSON object (\<open>response.json()\<close> throws) or a
  JSON object, of which only the \<open>version\<close> field matters (absent is \<open>None\<close>).
\<close>

datatype body = Text string | Json "string option"

record response =
  ok :: bool
  status :: nat
  content :: body

text \<open>
  A cache maps request URLs to responses; the cache storage lists the named caches in
  creation order, which is the order of \<open>caches.keys()\<close> and of the search of
  \<open>caches.match\<close>.
\<close>

type_synonym cache = "(string \<times> response) list"
type_synonym cache_storage = "(string \<times> cache) list"

definition caches_keys :: "cache_storage \<Rightarrow> string list" where
  "caches_keys cs = map fst cs"

definition caches_has :: "cache_storage \<Rightarrow> string \<Rightarrow> bool" where
  "caches_has cs name = (name \<in> set (caches_keys cs))"

text \<open>\<open>caches.open(name)\<close> creates an empty cache when none has the name.\<close>

definition caches_open :: "string \<Rightarrow> cache_storage \<Rightarrow> cache_storage" where
  "caches_open name cs = (if caches_has cs name then cs else cs @ [(name, [])])"

definition caches_delete :: "string \<Rightarrow> cache_storage \<Rightarrow> cache_storage" where
  "caches_delete name cs = filter (\<lambda>g. fst g \<noteq> name) cs"

text \<open>The cache a name denotes (empty when there is none).\<close>

definition the_cache :: "cache_storage \<Rightarrow> string \<Rightarrow> cache" where
  "the_cache cs name = (case map_of cs name of None \<Rightarrow> [] | Some c \<Rightarrow> c)"

text \<open>\<open>cache.put(url, response)\<close> replaces the entry of the URL or adds one.\<close>

fun cache_put :: "string \<Rightarrow> response \<Rightarrow> cache \<Rightarrow> cache" where
  "cache_put url r [] = [(url, r)]"
| "cache_put url r ((k, v) # c) = (if k = url then (url, r) # c else (k, v) # cache_put url r c)"

definition caches_put :: "string \<Rightarrow> string \<Rightarrow> response \<Rightarrow> cache_storage \<Rightarrow> cache_storage" where
  "caches_put name url r cs =
     map (\<lambda>g. if fst g = name then (fst g, cache_put url r (snd g)) else g) cs"

text \<open>\<open>caches.match(request)\<close>: the first cache, in creation order, that has the URL.\<close>

fun caches_match_in :: "cache_storage \<Rightarrow> string \<Rightarrow> (string \<times> response) option" where
  "caches_match_in [] url = None"
| "caches_match_in ((name, c) # cs) url =
     (case map_of c url of Some r \<Rightarrow> Some (name, r) | None \<Rightarrow> caches_match_in cs url)"

definition caches_match :: "cache_storage \<Rightarrow> string \<Rightarrow> response option" where
  "caches_match cs url = map_option snd (caches_match_in cs url)"

section \<open>The environment and the worker's state\<close>

datatype notification =
    CACHE_UPDATED string
  | CACHE_UPDATE_FAILED string
  | UPDATE_AVAILABLE string
  | CACHE_UPDATE_COMPLETE string

datatype event =
    Fetch string
  | CacheOpen string
  | CachePut string string
  | CacheDelete string
  | SetPointer string
  | PostMessage nat notification
  | PortReply notification

text \<open>
  What a handler run cannot decide itself: the network (\<open>None\<close> is a rejected fetch), the
  failures of the cache storage (\<open>caches.open\<close> rejecting with a message, \<open>cache.put\<close>
  rejecting), the origin that root-relative URLs resolve against, the value of
  \<open>getBasePath()\<close>, the decimal text of \<open>Date.now()\<close>, and the clients that
  \<open>self.clients.matchAll()\<close> returns. \<open>caches.keys\<close>, \<open>caches.match\<close> and
  \<open>caches.delete\<close> are taken not to reject.

  A handler is modelled as one function from the state at its start to the state at its
  end, with no other task running in between; the events it adds to the trace are in
  program order. Where a property depends on what other tasks do at an \<open>await\<close>, the
  handler is cut into its segments. \<open>skipWaiting\<close> and \<open>clients.claim\<close> change nothing
  that is modelled.
\<close>

record env =
  net :: "string \<Rightarrow> response option"
  open_error :: "string \<Rightarrow> string option"
  put_fails :: "string \<Rightarrow> string \<Rightarrow> bool"
  origin :: string
  basePath :: string
  now :: string
  clients :: "nat list"

record sw_state =
  CACHE_NAME :: string
  CURRENT_VERSION :: "string option"
  caches :: cache_storage
  trace :: "event list"

definition emit :: "event \<Rightarrow> sw_state \<Rightarrow> sw_state" where
  "emit e st = st\<lparr>trace := trace st @ [e]\<rparr>"

definition absolute :: "env \<Rightarrow> string \<Rightarrow> string" where
  "absolute e u = (if prefix ''/'' u then origin e @ u else u)"

definition getAssets :: "env \<Rightarrow> string list" where
  "getAssets e =
     [basePath e @ ''/'',
      basePath e @ ''/index.html'',
      basePath e @ ''/style.css'',
      basePath e @ ''/main.js'',
      basePath e @ ''/media/video2.mp4'',
      basePath e @ ''/media/image2.png'',
      basePath e @ ''/manifest.json'',
      basePath e @ ''/version.json'']"

section \<open>Version probing and resolution\<close>

definition versionUrl :: "env \<Rightarrow> string" where
  "versionUrl e = basePath e @ ''/version.json?t='' @ now e"

text \<open>\<open>fetchVersion\<close>: every failure (rejected fetch, status not ok, malformed body) is \<open>null\<close>.\<close>

definition fetchVersion_result :: "env \<Rightarrow> string option" where
  "fetchVersion_result e =
     (case net e (absolute e (versionUrl e)) of
        None \<Rightarrow> None
      | Some r \<Rightarrow>
          if \<not> ok r then None
          else (case content r of Text _ \<Rightarrow> None | Json v \<Rightarrow> or_null v))"

definition fetchVersion :: "env \<Rightarrow> sw_state \<Rightarrow> string option \<times> sw_state" where
  "fetchVersion e st = (fetchVersion_result e, emit (Fetch (absolute e (versionUrl e))) st)"

text \<open>\<open>getCachedVersion\<close> only reads the storage.\<close>

definition getCachedVersion :: "env \<Rightarrow> cache_storage \<Rightarrow> string option" where
  "getCachedVersion e cs =
     (let cacheNames = caches_keys cs;
          totemCaches = filter (prefix PREFIX) cacheNames
      in if totemCaches = [] then None
         else
           let latestCache = hd (rev (sort totemCaches)) in
           (case version_match latestCache of
              Some v \<Rightarrow> Some v
            | None \<Rightarrow>
                (case open_error e latestCache of
                   Some _ \<Rightarrow> None
                 | None \<Rightarrow>
                     (case map_of (the_cache cs latestCache) (absolute e ''/version.json'') of
                        None \<Rightarrow> None
                      | Some r \<Rightarrow>
                          (case content r of Text _ \<Rightarrow> None | Json v \<Rightarrow> or_null v)))))"

definition DEFAULT_CACHE_NAME :: string where
  "DEFAULT_CACHE_NAME = ''totem-cache-v1''"

definition set_pointer :: "string \<Rightarrow> string \<Rightarrow> sw_state \<Rightarrow> sw_state" where
  "set_pointer v name st = emit (SetPointer name) (st\<lparr>CURRENT_VERSION := Some v, CACHE_NAME := name\<rparr>)"

definition initializeCacheName :: "env \<Rightarrow> sw_state \<Rightarrow> sw_state" where
  "initializeCacheName e st =
     (let (onlineVersion, st1) = fetchVersion e st in
      if truthy onlineVersion then set_pointer (the onlineVersion) (PREFIX @ the onlineVersion) st1
      else
        let cachedVersion = getCachedVersion e (caches st1) in
        if truthy cachedVersion then set_pointer (the cachedVersion) (PREFIX @ the cachedVersion) st1
        else emit (SetPointer DEFAULT_CACHE_NAME) (st1\<lparr>CACHE_NAME := DEFAULT_CACHE_NAME\<rparr>))"

definition checkForUpdate :: "env \<Rightarrow> sw_state \<Rightarrow> bool \<times> sw_state" where
  "checkForUpdate e st =
     (let (onlineVersion, st1) = fetchVersion e st in
      if \<not> truthy onlineVersion then (False, st1)
      else
        let cachedVersion = getCachedVersion e (caches st1) in
        if \<not> truthy cachedVersion then (True, st1)
        else (onlineVersion \<noteq> cachedVersion, st1))"

section \<open>Populating a generation\<close>

definition cacheBustUrl :: "string \<Rightarrow> string \<Rightarrow> string \<Rightarrow> string" where
  "cacheBustUrl asset v ts =
     asset @ (if str_includes asset ''?'' then ''&'' else ''?'') @ ''_v='' @ v @ ''&_t='' @ ts"

text \<open>
  The per-asset download is \<open>assets.map(async (asset) => ...)\<close> awaited by
  \<open>Promise.allSettled\<close>: the \<open>map\<close> starts the fetch of every cache-busting URL before
  any of them settles. When the fetch of an asset settles, an ok response is stored under
  the asset's own URL and the asset reports \<open>{asset, success}\<close>; a rejected fetch, a
  status that is not ok and a rejected \<open>put\<close> all end in \<open>success: false\<close>. The fetches
  are taken to settle in the order of the asset list.
\<close>

definition settle_asset ::
  "env \<Rightarrow> string \<Rightarrow> string \<Rightarrow> sw_state \<Rightarrow> string \<Rightarrow> (string \<times> bool) \<times> sw_state" where
  "settle_asset e cacheName v st asset =
     (case net e (absolute e (cacheBustUrl asset v (now e))) of
        None \<Rightarrow> ((asset, False), st)
      | Some r \<Rightarrow>
          if ok r then
            (if put_fails e cacheName (absolute e asset) then ((asset, False), st)
             else ((asset, True),
                   emit (CachePut cacheName (absolute e asset))
                     (st\<lparr>caches := caches_put cacheName (absolute e asset) r (caches st)\<rparr>)))
          else ((asset, False), st))"

fun settle_all ::
  "env \<Rightarrow> string \<Rightarrow> string \<Rightarrow> string list \<Rightarrow> sw_state \<Rightarrow> (string \<times> bool) list \<times> sw_state" where
  "settle_all e cacheName v [] st = ([], st)"
| "settle_all e cacheName v (a # as) st =
     (let (r, st1) = settle_asset e cacheName v st a;
          (rs, st2) = settle_all e cacheName v as st1
      in (r # rs, st2))"

definition download_all ::
  "env \<Rightarrow> string \<Rightarrow> string \<Rightarrow> string list \<Rightarrow> sw_state \<Rightarrow> (string \<times> bool) list \<times> sw_state" where
  "download_all e cacheName v assets st =
     settle_all e cacheName v assets
       (fold (\<lambda>a. emit (Fetch (absolute e (cacheBustUrl a v (now e))))) assets st)"

text \<open>\<open>cache.addAll(assets)\<close> stores all responses or none.\<close>

definition addAll :: "env \<Rightarrow> string \<Rightarrow> string list \<Rightarrow> sw_state \<Rightarrow> bool \<times> sw_state" where
  "addAll e cacheName assets st =
     (let st1 = fold (\<lambda>a. emit (Fetch (absolute e a))) assets st in
      if list_all (\<lambda>a. case net e (absolute e a) of
                           None \<Rightarrow> False
                         | Some r \<Rightarrow> ok r \<and> \<not> put_fails e cacheName (absolute e a)) assets
      then (True,
            fold (\<lambda>a s. emit (CachePut cacheName (absolute e a))
                           (s\<lparr>caches := caches_put cacheName (absolute e a)
                                           (the (net e (absolute e a))) (caches s)\<rparr>)) assets st1)
      else (False, st1))"

definition essentialFiles :: "string list" where
  "essentialFiles = [''index.html'', ''main.js'', ''style.css'', ''version.json'']"

definition hasEssential :: "string list \<Rightarrow> (string \<times> bool) list \<Rightarrow> bool" where
  "hasEssential assets results =
     list_ex (\<lambda>file.
        case find (\<lambda>a. str_includes a file) assets of
          None \<Rightarrow> False
        | Some asset \<Rightarrow> list_ex (\<lambda>r. fst r = asset \<and> snd r) results) essentialFiles"

definition delete_cache :: "string \<Rightarrow> sw_state \<Rightarrow> sw_state" where
  "delete_cache name st = emit (CacheDelete name) (st\<lparr>caches := caches_delete name (caches st)\<rparr>)"

definition delete_all :: "string list \<Rightarrow> sw_state \<Rightarrow> sw_state" where
  "delete_all names st = fold delete_cache names st"

definition open_cache :: "string \<Rightarrow> sw_state \<Rightarrow> sw_state" where
  "open_cache name st = emit (CacheOpen name) (st\<lparr>caches := caches_open name (caches st)\<rparr>)"

text \<open>\<open>clients.forEach(client => client.postMessage(m))\<close> over \<open>self.clients.matchAll()\<close>.\<close>

definition broadcast :: "env \<Rightarrow> notification \<Rightarrow> sw_state \<Rightarrow> sw_state" where
  "broadcast e m st = st\<lparr>trace := trace st @ map (\<lambda>c. PostMessage c m) (clients e)\<rparr>"

section \<open>Install and activate\<close>

text \<open>The globals of a freshly started worker.\<close>

definition initial_state :: "cache_storage \<Rightarrow> sw_state" where
  "initial_state cs = \<lparr>CACHE_NAME = ''totem-cache-v9'', CURRENT_VERSION = None, caches = cs, trace = []\<rparr>"

text \<open>
  The install handler. \<open>caches.open\<close> is not guarded: when it rejects, the promise given to
  \<open>waitUntil\<close> rejects (\<open>Inl\<close>).
\<close>

definition install :: "env \<Rightarrow> sw_state \<Rightarrow> string + sw_state" where
  "install e st =
     (let st1 = initializeCacheName e st in
      case open_error e (CACHE_NAME st1) of
        Some msg \<Rightarrow> Inl msg
      | None \<Rightarrow>
          let st2 = open_cache (CACHE_NAME st1) st1;
              installVersion =
                (if truthy (CURRENT_VERSION st2) then the (CURRENT_VERSION st2) else ''install'');
              (all_ok, st3) = addAll e (CACHE_NAME st2) (getAssets e) st2
          in if all_ok then Inr st3
             else Inr (snd (download_all e (CACHE_NAME st2) installVersion (getAssets e) st3)))"

definition activate :: "env \<Rightarrow> sw_state \<Rightarrow> sw_state" where
  "activate e st =
     (let st1 = (if \<not> truthy (CURRENT_VERSION st) then initializeCacheName e st else st);
          cacheNames = caches_keys (caches st1);
          oldCaches = filter (\<lambda>name. prefix PREFIX name \<and> name \<noteq> CACHE_NAME st1) cacheNames
      in delete_all oldCaches st1)"

section \<open>Update\<close>

text \<open>
  \<open>updateCacheForNewVersion\<close> suspends at each \<open>await\<close>, and other tasks of the worker
  may run there. It is cut into the segments that run without suspension:
  \<^item> \<open>update_open\<close>: \<open>await caches.open(newCacheName)\<close>, which may reject;
  \<^item> \<open>update_download\<close>: the downloads up to \<open>await Promise.allSettled\<close>;
  \<^item> \<open>update_gate\<close>: the essential-set gate and, in the same synchronous stretch, either
    the call \<open>caches.delete(newCacheName)\<close> and the return, or the assignment of
    \<open>CACHE_NAME\<close> and \<open>CURRENT_VERSION\<close>; the code then suspends at
    \<open>await caches.keys()\<close>;
  \<^item> \<open>update_cleanup\<close>: the filter over the names and the \<open>caches.delete\<close> calls, on the
    state the worker has when \<open>caches.keys()\<close> has resolved;
  \<^item> \<open>update_notify\<close>: the \<open>CACHE_UPDATED\<close> messages;
  \<^item> \<open>update_failed\<close>: the \<open>catch\<close> block.
\<close>

definition update_open :: "env \<Rightarrow> string \<Rightarrow> sw_state \<Rightarrow> string + sw_state" where
  "update_open e newVersion st =
     (case open_error e (PREFIX @ newVersion) of
        Some msg \<Rightarrow> Inl msg
      | None \<Rightarrow> Inr (open_cache (PREFIX @ newVersion) st))"

definition update_download ::
  "env \<Rightarrow> string \<Rightarrow> sw_state \<Rightarrow> (string \<times> bool) list \<times> sw_state" where
  "update_download e newVersion st =
     download_all e (PREFIX @ newVersion) newVersion (getAssets e) st"

definition update_gate ::
  "env \<Rightarrow> string \<Rightarrow> (string \<times> bool) list \<Rightarrow> sw_state \<Rightarrow> bool \<times> sw_state" where
  "update_gate e newVersion results st =
     (if \<not> hasEssential (getAssets e) results
      then (False, delete_cache (PREFIX @ newVersion) st)
      else (True, set_pointer newVersion (PREFIX @ newVersion) st))"

definition update_cleanup :: "env \<Rightarrow> string \<Rightarrow> sw_state \<Rightarrow> sw_state" where
  "update_cleanup e newVersion st =
     (let allCacheNames = caches_keys (caches st);
          oldCaches =
            filter (\<lambda>name. prefix PREFIX name \<and> name \<noteq> PREFIX @ newVersion) allCacheNames
      in delete_all oldCaches st)"

definition update_notify :: "env \<Rightarrow> string \<Rightarrow> sw_state \<Rightarrow> sw_state" where
  "update_notify e newVersion st = broadcast e (CACHE_UPDATED newVersion) st"

definition update_failed :: "env \<Rightarrow> string \<Rightarrow> sw_state \<Rightarrow> sw_state" where
  "update_failed e msg st = broadcast e (CACHE_UPDATE_FAILED msg) st"

text \<open>An update during which no other task runs: the segments one after the other.\<close>

definition updateCacheForNewVersion :: "env \<Rightarrow> string \<Rightarrow> sw_state \<Rightarrow> sw_state" where
  "updateCacheForNewVersion e newVersion st =
     (case update_open e newVersion st of
        Inl msg \<Rightarrow> update_failed e msg st
      | Inr st1 \<Rightarrow>
          let (results, st2) = update_download e newVersion st1;
              (passed, st3) = update_gate e newVersion results st2
          in if passed then update_notify e newVersion (update_cleanup e newVersion st3)
             else st3)"

text \<open>
  The second worker file of the repository has an older \<open>updateCacheForNewVersion\<close>: it
  fetches each asset's own URL in turn, has no essential-set gate, and deletes only the
  generation the pointer named before the update.
\<close>

definition legacy_asset :: "env \<Rightarrow> string \<Rightarrow> sw_state \<Rightarrow> string \<Rightarrow> sw_state" where
  "legacy_asset e cacheName st asset =
     (let u = absolute e asset;
          st1 = emit (Fetch u) st
      in case net e u of
           None \<Rightarrow> st1
         | Some r \<Rightarrow>
             if ok r \<and> \<not> put_fails e cacheName u
             then emit (CachePut cacheName u) (st1\<lparr>caches := caches_put cacheName u r (caches st1)\<rparr>)
             else st1)"

definition legacy_updateCacheForNewVersion :: "env \<Rightarrow> string \<Rightarrow> sw_state \<Rightarrow> sw_state" where
  "legacy_updateCacheForNewVersion e newVersion st =
     (let newCacheName = PREFIX @ newVersion in
      case open_error e newCacheName of
        Some msg \<Rightarrow> st
      | None \<Rightarrow>
          let st1 = open_cache newCacheName st;
              st2 = fold (\<lambda>a s. legacy_asset e newCacheName s a)
                      [basePath e @ ''/'', basePath e @ ''/index.html'', basePath e @ ''/style.css'',
                       basePath e @ ''/main.js'', basePath e @ ''/media/video1.mp4'',
                       basePath e @ ''/media/image1.png'', basePath e @ ''/manifest.json'',
                       basePath e @ ''/version.json''] st1;
              oldCacheName = CACHE_NAME st2;
              st3 = set_pointer newVersion newCacheName st2;
              st4 = delete_cache oldCacheName st3
          in broadcast e (CACHE_UPDATED newVersion) st4)"

section \<open>Messages from clients\<close>

text \<open>
  \<open>UPDATE_VERSION v p\<close>: \<open>v\<close> is \<open>event.data.version\<close> and \<open>p\<close> says whether
  \<open>event.ports[0]\<close> exists.
\<close>

datatype sw_message = CHECK_VERSION | UPDATE_VERSION "string option" bool | OtherMessage

definition onMessage :: "env \<Rightarrow> sw_message \<Rightarrow> sw_state \<Rightarrow> sw_state" where
  "onMessage e msg st =
     (case msg of
        CHECK_VERSION \<Rightarrow>
          (let (hasUpdate, st1) = checkForUpdate e st in
           if hasUpdate then
             (let (onlineVersion, st2) = fetchVersion e st1 in
              if truthy onlineVersion
              then broadcast e (UPDATE_AVAILABLE (the onlineVersion))
                     (updateCacheForNewVersion e (the onlineVersion) st2)
              else st2)
           else st1)
      | UPDATE_VERSION newVersion has_port \<Rightarrow>
          if truthy newVersion then
            (let st1 = updateCacheForNewVersion e (the newVersion) st in
             if has_port then emit (PortReply (CACHE_UPDATE_COMPLETE (the newVersion))) st1 else st1)
          else st
      | OtherMessage \<Rightarrow> st)"

section \<open>Serving requests\<close>

text \<open>
  A request is its method, its absolute URL and the \<open>pathname\<close> that \<open>new URL(url)\<close>
  gives. GET requests are stored and looked up under their URL.
\<close>

record request =
  http_method :: string
  url :: string
  pathname :: string

text \<open>
  What the fetch listener does with the event: it returns without \<open>respondWith\<close>, it
  answers, or it throws before answering.
\<close>

datatype outcome = NotHandled | Responded response | Threw

definition offline_response :: response where
  "offline_response = \<lparr>ok = False, status = 503, content = Text ''Offline''\<rparr>"

definition not_found_response :: response where
  "not_found_response = \<lparr>ok = False, status = 404, content = Text []\<rparr>"

definition to_lower :: "char \<Rightarrow> char" where
  "to_lower c = (if CHR ''A'' \<le> c \<and> c \<le> CHR ''Z'' then char_of (of_char c + (32::nat)) else c)"

text \<open>The test \<open>/\.(mp4|webm|ogg|mp3|wav|avi|mov)$/i\<close>.\<close>

definition is_media :: "string \<Rightarrow> bool" where
  "is_media u =
     list_ex (\<lambda>ext. suffix (CHR ''.'' # ext) (map to_lower u))
       [''mp4'', ''webm'', ''ogg'', ''mp3'', ''wav'', ''avi'', ''mov'']"

text \<open>The \<open>catch\<close> of the version-descriptor branch.\<close>

definition version_fallback :: "request \<Rightarrow> sw_state \<Rightarrow> outcome \<times> sw_state" where
  "version_fallback req st =
     (case caches_match (caches st) (url req) of
        Some cachedResponse \<Rightarrow> (Responded cachedResponse, st)
      | None \<Rightarrow> (Responded offline_response, st))"

text \<open>
  The version-descriptor branch. The cache update stands inside the \<open>try\<close>, so a rejected
  \<open>caches.open\<close> or \<open>cache.put\<close> is handled by the same \<open>catch\<close> as a rejected fetch.
\<close>

definition serve_version :: "env \<Rightarrow> request \<Rightarrow> sw_state \<Rightarrow> outcome \<times> sw_state" where
  "serve_version e req st =
     (let st1 = emit (Fetch (url req)) st in
      case net e (url req) of
        None \<Rightarrow> version_fallback req st1
      | Some networkResponse \<Rightarrow>
          if ok networkResponse then
            (case open_error e (CACHE_NAME st1) of
               Some _ \<Rightarrow> version_fallback req st1
             | None \<Rightarrow>
                 let st2 = open_cache (CACHE_NAME st1) st1 in
                 if put_fails e (CACHE_NAME st1) (url req) then version_fallback req st2
                 else (Responded networkResponse,
                       emit (CachePut (CACHE_NAME st1) (url req))
                         (st2\<lparr>caches := caches_put (CACHE_NAME st1) (url req) networkResponse
                                           (caches st2)\<rparr>)))
          else (Responded networkResponse, st1))"

text \<open>
  Storing a fetched response in the generation that \<open>CACHE_NAME\<close> names when the store
  runs; a rejected \<open>open\<close> or \<open>put\<close> is swallowed.
\<close>

definition store_current :: "env \<Rightarrow> request \<Rightarrow> response \<Rightarrow> sw_state \<Rightarrow> sw_state" where
  "store_current e req r st =
     (case open_error e (CACHE_NAME st) of
        Some _ \<Rightarrow> st
      | None \<Rightarrow>
          let st1 = open_cache (CACHE_NAME st) st in
          if put_fails e (CACHE_NAME st) (url req) then st1
          else emit (CachePut (CACHE_NAME st) (url req))
                 (st1\<lparr>caches := caches_put (CACHE_NAME st) (url req) r (caches st1)\<rparr>))"

text \<open>
  The cache-first branch up to the response. On a hit the background fetch is started and
  the cached response returned; the continuation of that fetch is \<open>background_refresh\<close>.
\<close>

definition serve_cache_first :: "env \<Rightarrow> request \<Rightarrow> sw_state \<Rightarrow> outcome \<times> sw_state" where
  "serve_cache_first e req st =
     (case caches_match (caches st) (url req) of
        Some cachedResponse \<Rightarrow> (Responded cachedResponse, emit (Fetch (url req)) st)
      | None \<Rightarrow>
          (let st1 = emit (Fetch (url req)) st in
           case net e (url req) of
             Some networkResponse \<Rightarrow>
               (Responded networkResponse,
                if ok networkResponse then store_current e req networkResponse st1 else st1)
           | None \<Rightarrow>
               if is_media (url req) then (Responded not_found_response, st1)
               else (Responded offline_response, st1)))"

text \<open>
  The \<open>then\<close> callback of the background fetch. It runs when that fetch has settled, on the
  state the worker has at that moment, and reads \<open>CACHE_NAME\<close> there.
\<close>

definition background_refresh :: "env \<Rightarrow> request \<Rightarrow> sw_state \<Rightarrow> sw_state" where
  "background_refresh e req st =
     (case net e (url req) of
        None \<Rightarrow> st
      | Some r \<Rightarrow> if ok r then store_current e req r st else st)"

text \<open>
  In the favicon branch \<open>new Response('', {status: 204})\<close> throws a \<open>TypeError\<close>: a
  response with status 204 cannot be given a body, and the empty string is one. The
  listener ends there, before \<open>respondWith\<close>.
\<close>

definition onFetch :: "env \<Rightarrow> request \<Rightarrow> sw_state \<Rightarrow> outcome \<times> sw_state" where
  "onFetch e req st =
     (if http_method req \<noteq> ''GET'' then (NotHandled, st)
      else if \<not> prefix ''http'' (url req) then (NotHandled, st)
      else if suffix ''/favicon.ico'' (pathname req) \<or> pathname req = ''/favicon.ico''
      then (Threw, st)
      else if pathname req = basePath e @ ''/version.json'' \<or> suffix ''/version.json'' (pathname req)
      then serve_version e req st
      else serve_cache_first e req st)"

section \<open>Observers used to state the properties\<close>

text \<open>The events a run adds to the trace.\<close>

definition new_events :: "sw_state \<Rightarrow> sw_state \<Rightarrow> event list" where
  "new_events st st' = drop (length (trace st)) (trace st')"

fun is_delete :: "event \<Rightarrow> bool" where
  "is_delete (CacheDelete n) = True"
| "is_delete ev = False"

fun is_post :: "event \<Rightarrow> bool" where
  "is_post (PostMessage c m) = True"
| "is_post ev = False"

fun put_target :: "event \<Rightarrow> string option" where
  "put_target (CachePut n u) = Some n"
| "put_target ev = None"

text \<open>The events of a download: fetches and stores.\<close>

fun is_download_event :: "event \<Rightarrow> bool" where
  "is_download_event (Fetch u) = True"
| "is_download_event (CachePut n u) = True"
| "is_download_event ev = False"

text \<open>Whether the per-asset download of one asset succeeds; the state plays no part.\<close>

definition asset_ok :: "env \<Rightarrow> string \<Rightarrow> string \<Rightarrow> string \<Rightarrow> bool" where
  "asset_ok e cacheName v asset =
     (case net e (absolute e (cacheBustUrl asset v (now e))) of
        None \<Rightarrow> False
      | Some r \<Rightarrow> ok r \<and> \<not> put_fails e cacheName (absolute e asset))"

text \<open>The essential-set gate of an update to version \<open>v\<close>.\<close>

definition gate_passes :: "env \<Rightarrow> string \<Rightarrow> bool" where
  "gate_passes e v =
     hasEssential (getAssets e) (map (\<lambda>a. (a, asset_ok e (PREFIX @ v) v a)) (getAssets e))"

section \<open>Example environments and states\<close>

definition descriptor :: "string \<Rightarrow> response" where
  "descriptor v = \<lparr>ok = True, status = 200, content = Json (Some v)\<rparr>"

definition page :: "string \<Rightarrow> response" where
  "page t = \<lparr>ok = True, status = 200, content = Text t\<rparr>"

text \<open>No network; the storage works; two clients are connected.\<close>

definition offline_env :: env where
  "offline_env =
     \<lparr>net = (\<lambda>u. None), open_error = (\<lambda>n. None), put_fails = (\<lambda>n u. False),
      origin = ''https://kiosk.example'', basePath = [], now = ''1733054400000'',
      clients = [0, 1]\<rparr>"

text \<open>Every URL answers: the version descriptor with version \<open>v\<close>, anything else with a page.\<close>

definition online_env :: "string \<Rightarrow> env" where
  "online_env v =
     offline_env\<lparr>net := (\<lambda>u. if prefix ''https://kiosk.example/version.json'' u
                              then Some (descriptor v) else Some (page ''fresh''))\<rparr>"

text \<open>A worker that runs version \<open>v1\<close> from the generation \<open>totem-cache-v1\<close>.\<close>

definition v1_state :: sw_state where
  "v1_state =
     \<lparr>CACHE_NAME = ''totem-cache-v1'', CURRENT_VERSION = Some ''v1'',
      caches = [(''totem-cache-v1'',
                 [(''https://kiosk.example/style.css'', page ''old css''),
                  (''https://kiosk.example/version.json'', descriptor ''v1'')])],
      trace = []\<rparr>"

text \<open>A storage whose only cache does not carry the prefix but holds a version descriptor.\<close>

definition foreign_storage :: cache_storage where
  "foreign_storage =
     [(''legacy-cache'', [(''https://kiosk.example/version.json'', descriptor ''20240101'')])]"

text \<open>A storage whose only generation has the bare prefix as its name.\<close>

definition bare_storage :: cache_storage where
  "bare_storage =
     [(''totem-cache-'', [(''https://kiosk.example/version.json'', descriptor ''v0'')])]"

text \<open>A storage whose only generation has the prefix, a line feed and \<open>b\<close> as its name.\<close>

definition line_feed_name :: string where
  "line_feed_name = ''totem-cache-'' @ [CHR 0x0A] @ ''b''"

definition line_feed_storage :: cache_storage where
  "line_feed_storage =
     [(line_feed_name, [(''https://kiosk.example/version.json'', descriptor ''v7'')])]"

text \<open>Only the version descriptor can be fetched.\<close>

definition descriptor_only_env :: env where
  "descriptor_only_env =
     offline_env\<lparr>net := (\<lambda>u. if prefix ''https://kiosk.example/version.json'' u
                              then Some (descriptor ''v3'') else None)\<rparr>"

text \<open>Only the probe of \<open>fetchVersion\<close> is answered; every download fails.\<close>

definition probe_only_env :: "string \<Rightarrow> env" where
  "probe_only_env v =
     offline_env\<lparr>net := (\<lambda>u. if u = ''https://kiosk.example/version.json?t=1733054400000''
                              then Some (descriptor v) else None)\<rparr>"

text \<open>
  Two updates of the worker that runs version \<open>v1\<close>, A to \<open>v2\<close> and B to \<open>v3\<close>, taking
  turns at their suspension points: A opens and downloads, B opens and downloads, A passes
  its gate and assigns the pointer, B passes its gate and assigns the pointer while A waits
  for \<open>caches.keys()\<close>, A deletes, B deletes.
\<close>

definition race_A1 :: sw_state where
  "race_A1 = projr (update_open descriptor_only_env ''v2'' v1_state)"

definition race_A2 :: "(string \<times> bool) list \<times> sw_state" where
  "race_A2 = update_download descriptor_only_env ''v2'' race_A1"

definition race_B1 :: sw_state where
  "race_B1 = projr (update_open descriptor_only_env ''v3'' (snd race_A2))"

definition race_B2 :: "(string \<times> bool) list \<times> sw_state" where
  "race_B2 = update_download descriptor_only_env ''v3'' race_B1"

definition race_A3 :: "bool \<times> sw_state" where
  "race_A3 = update_gate descriptor_only_env ''v2'' (fst race_A2) (snd race_B2)"

definition race_B3 :: "bool \<times> sw_state" where
  "race_B3 = update_gate descriptor_only_env ''v3'' (fst race_B2) (snd race_A3)"

definition race_A4 :: sw_state where
  "race_A4 = update_cleanup descriptor_only_env ''v2'' (snd race_B3)"

definition race_B4 :: sw_state where
  "race_B4 = update_cleanup descriptor_only_env ''v3'' race_A4"

text \<open>A generation name with a line feed in its suffix.\<close>

definition two_line_name :: string where
  "two_line_name = ''totem-cache-a'' @ [CHR 0x0A] @ ''b''"

text \<open>Online, except that the stylesheet cannot be fetched.\<close>

definition stylesheet_down_env :: "string \<Rightarrow> env" where
  "stylesheet_down_env v =
     offline_env\<lparr>net := (\<lambda>u. if prefix ''https://kiosk.example/style.css'' u then None
                              else if prefix ''https://kiosk.example/version.json'' u
                              then Some (descriptor v) else Some (page ''fresh''))\<rparr>"

text \<open>Offline, and every \<open>caches.open\<close> rejects.\<close>

definition broken_storage_env :: env where
  "broken_storage_env = offline_env\<lparr>open_error := (\<lambda>n. Some ''storage unavailable'')\<rparr>"

text \<open>Online, but every \<open>cache.put\<close> rejects.\<close>

definition quota_env :: "string \<Rightarrow> env" where
  "quota_env v = (online_env v)\<lparr>put_fails := (\<lambda>n u. True)\<rparr>"

definition version_request :: request where
  "version_request =
     \<lparr>http_method = ''GET'', url = ''https://kiosk.example/version.json'', pathname = ''/version.json''\<rparr>"

definition style_request :: request where
  "style_request =
     \<lparr>http_method = ''GET'', url = ''https://kiosk.example/style.css'', pathname = ''/style.css''\<rparr>"

text \<open>The worker after a restart: the globals are fresh, the storage is what version \<open>v1\<close> left.\<close>

definition restarted_state :: sw_state where
  "restarted_state = initial_state (caches v1_state)"

text \<open>
  The state inside an update from \<open>v1\<close> to \<open>v2\<close> between the pointer assignment and
  the deletions.
\<close>

definition flipped_state :: sw_state where
  "flipped_state = set_pointer ''v2'' ''totem-cache-v2'' (open_cache ''totem-cache-v2'' v1_state)"

section \<open>Properties of version probing and resolution\<close>

lemma append_le_append: "(p @ a \<le> p @ (b::string)) = (a \<le> b)"
  by (induction p) (auto simp: Cons_le_Cons)

lemma drop_prefix_le:
  assumes "prefix p (a::string)" "prefix p b" "a \<le> b"
  shows "drop (length p) a \<le> drop (length p) b"
proof -
  from assms(1) obtain a' where a: "a = p @ a'" by (auto simp: prefix_def)
  from assms(2) obtain b' where b: "b = p @ b'" by (auto simp: prefix_def)
  from assms(3) show ?thesis unfolding a b by (simp add: append_le_append)
qed

lemma version_match_suffix:
  assumes "prefix PREFIX n" "drop (length PREFIX) n \<noteq> []"
    "\<forall>c \<in> set (drop (length PREFIX) n). \<not> is_line_terminator c"
  shows "version_match n = Some (drop (length PREFIX) n)"
proof (cases n)
  case Nil
  with assms show ?thesis by simp
next
  case (Cons c cs)
  from assms(2) obtain d ds where d: "drop (length PREFIX) n = d # ds"
    by (cases "drop (length PREFIX) n") auto
  with assms(3) have "\<not> is_line_terminator d" by simp
  moreover from assms(3)
  have "takeWhile (\<lambda>d. \<not> is_line_terminator d) (drop (length PREFIX) n) = drop (length PREFIX) n"
    by (simp add: takeWhile_eq_all_conv)
  ultimately show ?thesis using assms(1) d Cons by simp
qed

lemma version_match_PREFIX: "version_match PREFIX = None"
  by (simp add: PREFIX_def is_line_terminator_def)

lemma sorted_last_greatest:
  fixes xs :: "'a::linorder list"
  shows "sorted xs \<Longrightarrow> x \<in> set xs \<Longrightarrow> x \<le> last xs"
  by (induction xs) auto

text \<open>\<open>names.sort().reverse()[0]\<close> is the greatest name.\<close>

lemma latest_greatest:
  fixes xs :: "string list"
  assumes "xs \<noteq> []"
  shows "hd (rev (sort xs)) \<in> set xs" and "\<forall>n \<in> set xs. n \<le> hd (rev (sort xs))"
proof -
  have ne: "sort xs \<noteq> []" using assms by (metis set_empty set_sort)
  have "last (sort xs) \<in> set (sort xs)" using ne by (rule last_in_set)
  then show "hd (rev (sort xs)) \<in> set xs" by (simp add: hd_rev)
  show "\<forall>n \<in> set xs. n \<le> hd (rev (sort xs))"
    using sorted_last_greatest [of "sort xs"] by (simp add: hd_rev)
qed

lemma latest_unique:
  fixes xs :: "string list"
  assumes "l \<in> set xs" "\<forall>n \<in> set xs. n \<le> l"
  shows "hd (rev (sort xs)) = l"
proof -
  have ne: "xs \<noteq> []" using assms(1) by auto
  from latest_greatest [OF ne] assms show ?thesis by (meson order_antisym)
qed

lemma fetchVersion_caches: "caches (snd (fetchVersion e st)) = caches st"
  by (simp add: fetchVersion_def emit_def)

text \<open>
  Claim C2. \<open>checkForUpdate\<close> answers true exactly when the remote version is known and
  differs from the local one, or the remote version is known and the local one is unknown.
  It answers false whenever the remote version is unknown, which is the case when the
  fetch of the descriptor is rejected, answers with a status that is not ok, or carries a
  body that is not a JSON object. The remote version is what \<open>fetchVersion\<close> returns, the
  local one what \<open>getCachedVersion\<close> returns; known means truthy.
\<close>

theorem checkForUpdate_decision:
  "fst (checkForUpdate e st) =
     ((truthy (fetchVersion_result e) \<and> fetchVersion_result e \<noteq> getCachedVersion e (caches st)) \<or>
      (truthy (fetchVersion_result e) \<and> \<not> truthy (getCachedVersion e (caches st)))) \<and>
   (\<not> truthy (fetchVersion_result e) \<longrightarrow> fst (checkForUpdate e st) = False) \<and>
   (net e (absolute e (versionUrl e)) = None \<longrightarrow> fetchVersion_result e = None) \<and>
   (\<forall>r. net e (absolute e (versionUrl e)) = Some r \<and> (\<not> ok r \<or> (\<exists>t. content r = Text t)) \<longrightarrow>
        fetchVersion_result e = None)"
proof (intro conjI allI impI)
  show "fst (checkForUpdate e st) =
     ((truthy (fetchVersion_result e) \<and> fetchVersion_result e \<noteq> getCachedVersion e (caches st)) \<or>
      (truthy (fetchVersion_result e) \<and> \<not> truthy (getCachedVersion e (caches st))))"
    by (auto simp: checkForUpdate_def fetchVersion_def emit_def Let_def)
next
  assume "\<not> truthy (fetchVersion_result e)"
  then show "fst (checkForUpdate e st) = False"
    by (simp add: checkForUpdate_def fetchVersion_def emit_def Let_def)
next
  assume "net e (absolute e (versionUrl e)) = None"
  then show "fetchVersion_result e = None"
    by (simp add: fetchVersion_result_def)
next
  fix r
  assume "net e (absolute e (versionUrl e)) = Some r \<and> (\<not> ok r \<or> (\<exists>t. content r = Text t))"
  then show "fetchVersion_result e = None"
    by (auto simp: fetchVersion_result_def)
qed

theorem checkForUpdate_decision_witness:
  "net offline_env (absolute offline_env (versionUrl offline_env)) = None \<and>
   fetchVersion_result offline_env = None \<and>
   fst (checkForUpdate offline_env v1_state) = False \<and>
   fetchVersion_result (online_env ''v2'') = Some ''v2'' \<and>
   getCachedVersion (online_env ''v2'') (caches v1_state) = Some ''v1'' \<and>
   fst (checkForUpdate (online_env ''v2'') v1_state) = True \<and>
   fst (checkForUpdate (online_env ''v1'') v1_state) = False"
proof -
  have off: "net offline_env (absolute offline_env (versionUrl offline_env)) = None"
    by code_simp
  have r2: "fetchVersion_result (online_env ''v2'') = Some ''v2''"
    by code_simp
  have r1: "fetchVersion_result (online_env ''v1'') = Some ''v1''"
    by code_simp
  have l2: "getCachedVersion (online_env ''v2'') (caches v1_state) = Some ''v1''"
    by code_simp
  have l1: "getCachedVersion (online_env ''v1'') (caches v1_state) = Some ''v1''"
    by code_simp
  from off checkForUpdate_decision [of offline_env v1_state]
  have a: "fetchVersion_result offline_env = None \<and> fst (checkForUpdate offline_env v1_state) = False"
    by (simp add: truthy_def)
  from r2 l2 checkForUpdate_decision [of "online_env ''v2''" v1_state]
  have b: "fst (checkForUpdate (online_env ''v2'') v1_state) = True"
    by (simp add: truthy_def)
  from r1 l1 checkForUpdate_decision [of "online_env ''v1''" v1_state]
  have c: "fst (checkForUpdate (online_env ''v1'') v1_state) = False"
    by (simp add: truthy_def)
  from off a b c r2 l2 show ?thesis by simp
qed

lemma version_match_head:
  assumes "prefix PREFIX n" "drop (length PREFIX) n = d # ds" "\<not> is_line_terminator d"
  shows "version_match n = Some (takeWhile (\<lambda>c. \<not> is_line_terminator c) (d # ds))"
proof (cases n)
  case Nil
  with assms show ?thesis by simp
next
  case (Cons c cs)
  with assms show ?thesis by simp
qed

lemma version_match_None_iff:
  "(version_match n = None) =
   (\<forall>i. prefix PREFIX (drop i n) \<longrightarrow>
        (case drop (i + length PREFIX) n of [] \<Rightarrow> True | d # ds \<Rightarrow> is_line_terminator d))"
proof (induction n)
  case Nil
  show ?case by (simp add: PREFIX_def)
next
  case (Cons c cs)
  have split: "(\<forall>i. Q i) = (Q 0 \<and> (\<forall>i. Q (Suc i)))" for Q :: "nat \<Rightarrow> bool"
    by (metis nat.exhaust)
  show ?case
    apply (subst split)
    using Cons by (auto split: list.splits)
qed

text \<open>
  Claim C8, as the code has it. \<open>getCachedVersion\<close> keeps the cache names that start
  with the prefix. When none does it returns \<open>null\<close> at once, without reading any stored
  descriptor. Otherwise it takes the greatest name, whose suffix is the greatest suffix.
  When the regular expression matches that name it returns the captured group, whatever is
  stored: the group is the suffix up to its first line terminator when the suffix starts
  with a character that is no line terminator, so it is the whole suffix when that is not
  empty and has no line terminator. The stored descriptor under \<open>/version.json\<close> of that
  generation is read exactly when the regular expression does not match the greatest name,
  which is when no occurrence of the prefix in the name is followed by a character that is
  no line terminator; the bare prefix is such a name. Then the descriptor's version field
  is returned, and \<open>null\<close> when the generation does not open, the entry is absent, is
  not a JSON object or has no truthy version field.
\<close>

theorem getCachedVersion_cases:
  "(filter (prefix PREFIX) (caches_keys cs) = [] \<longrightarrow> getCachedVersion e cs = None) \<and>
   (\<forall>latest.
      latest \<in> set (filter (prefix PREFIX) (caches_keys cs)) \<and>
      (\<forall>n \<in> set (filter (prefix PREFIX) (caches_keys cs)). n \<le> latest) \<longrightarrow>
        (\<forall>n \<in> set (filter (prefix PREFIX) (caches_keys cs)).
            drop (length PREFIX) n \<le> drop (length PREFIX) latest) \<and>
        (\<forall>v. version_match latest = Some v \<longrightarrow> getCachedVersion e cs = Some v) \<and>
        (\<forall>d ds. drop (length PREFIX) latest = d # ds \<and> \<not> is_line_terminator d \<longrightarrow>
           getCachedVersion e cs = Some (takeWhile (\<lambda>c. \<not> is_line_terminator c) (d # ds))) \<and>
        (drop (length PREFIX) latest \<noteq> [] \<and>
         (\<forall>c \<in> set (drop (length PREFIX) latest). \<not> is_line_terminator c) \<longrightarrow>
           getCachedVersion e cs = Some (drop (length PREFIX) latest)) \<and>
        (version_match latest = None \<longrightarrow>
           getCachedVersion e cs =
             (case open_error e latest of
                Some msg \<Rightarrow> None
              | None \<Rightarrow>
                  (case map_of (the_cache cs latest) (absolute e ''/version.json'') of
                     None \<Rightarrow> None
                   | Some r \<Rightarrow> (case content r of Text t \<Rightarrow> None | Json v \<Rightarrow> or_null v))))) \<and>
   (\<forall>n. (version_match n = None) =
        (\<forall>i. prefix PREFIX (drop i n) \<longrightarrow>
             (case drop (i + length PREFIX) n of [] \<Rightarrow> True | d # ds \<Rightarrow> is_line_terminator d))) \<and>
   version_match PREFIX = None"
proof -
  let ?F = "filter (prefix PREFIX) (caches_keys cs)"
  have c1: "?F = [] \<longrightarrow> getCachedVersion e cs = None"
    by (simp add: getCachedVersion_def)
  have c2: "(\<forall>n \<in> set ?F. drop (length PREFIX) n \<le> drop (length PREFIX) latest) \<and>
        (\<forall>v. version_match latest = Some v \<longrightarrow> getCachedVersion e cs = Some v) \<and>
        (\<forall>d ds. drop (length PREFIX) latest = d # ds \<and> \<not> is_line_terminator d \<longrightarrow>
           getCachedVersion e cs = Some (takeWhile (\<lambda>c. \<not> is_line_terminator c) (d # ds))) \<and>
        (drop (length PREFIX) latest \<noteq> [] \<and>
         (\<forall>c \<in> set (drop (length PREFIX) latest). \<not> is_line_terminator c) \<longrightarrow>
           getCachedVersion e cs = Some (drop (length PREFIX) latest)) \<and>
        (version_match latest = None \<longrightarrow>
           getCachedVersion e cs =
             (case open_error e latest of
                Some msg \<Rightarrow> None
              | None \<Rightarrow>
                  (case map_of (the_cache cs latest) (absolute e ''/version.json'') of
                     None \<Rightarrow> None
                   | Some r \<Rightarrow> (case content r of Text t \<Rightarrow> None | Json v \<Rightarrow> or_null v))))"
    if h: "latest \<in> set ?F \<and> (\<forall>n \<in> set ?F. n \<le> latest)" for latest
  proof -
    from h have l: "hd (rev (sort ?F)) = latest"
      by (intro latest_unique) auto
    from h have ne: "?F \<noteq> []" by (auto simp: filter_empty_conv)
    from h have p: "prefix PREFIX latest" by auto
    have g: "getCachedVersion e cs =
        (case version_match latest of
           Some v \<Rightarrow> Some v
         | None \<Rightarrow>
             (case open_error e latest of
                Some msg \<Rightarrow> None
              | None \<Rightarrow>
                  (case map_of (the_cache cs latest) (absolute e ''/version.json'') of
                     None \<Rightarrow> None
                   | Some r \<Rightarrow> (case content r of Text t \<Rightarrow> None | Json v \<Rightarrow> or_null v))))"
      using l ne by (simp add: getCachedVersion_def Let_def)
    have a: "\<forall>n \<in> set ?F. drop (length PREFIX) n \<le> drop (length PREFIX) latest"
      using h by (auto intro: drop_prefix_le)
    have b: "\<forall>v. version_match latest = Some v \<longrightarrow> getCachedVersion e cs = Some v"
      by (simp add: g)
    have c: "\<forall>d ds. drop (length PREFIX) latest = d # ds \<and> \<not> is_line_terminator d \<longrightarrow>
           getCachedVersion e cs = Some (takeWhile (\<lambda>c. \<not> is_line_terminator c) (d # ds))"
      using p by (auto simp: g version_match_head)
    have d: "drop (length PREFIX) latest \<noteq> [] \<and>
         (\<forall>c \<in> set (drop (length PREFIX) latest). \<not> is_line_terminator c) \<longrightarrow>
           getCachedVersion e cs = Some (drop (length PREFIX) latest)"
      using p by (auto simp: g version_match_suffix)
    have f: "version_match latest = None \<longrightarrow>
           getCachedVersion e cs =
             (case open_error e latest of
                Some msg \<Rightarrow> None
              | None \<Rightarrow>
                  (case map_of (the_cache cs latest) (absolute e ''/version.json'') of
                     None \<Rightarrow> None
                   | Some r \<Rightarrow> (case content r of Text t \<Rightarrow> None | Json v \<Rightarrow> or_null v)))"
      by (simp add: g)
    from a b c d f show ?thesis by blast
  qed
  from c1 c2 version_match_None_iff version_match_PREFIX show ?thesis by blast
qed

theorem getCachedVersion_cases_witness:
  "filter (prefix PREFIX) (caches_keys foreign_storage) = [] \<and>
   getCachedVersion offline_env foreign_storage = None \<and>
   ''totem-cache-v1'' \<in> set (filter (prefix PREFIX) (caches_keys (caches v1_state))) \<and>
   list_all (\<lambda>n. n \<le> ''totem-cache-v1'') (filter (prefix PREFIX) (caches_keys (caches v1_state))) \<and>
   version_match ''totem-cache-v1'' = Some ''v1'' \<and>
   drop (length PREFIX) ''totem-cache-v1'' = ''v1'' \<and>
   \<not> is_line_terminator CHR ''v'' \<and>
   list_all (\<lambda>c. \<not> is_line_terminator c) ''v1'' \<and>
   getCachedVersion offline_env (caches v1_state) = Some ''v1'' \<and>
   PREFIX \<in> set (filter (prefix PREFIX) (caches_keys bare_storage)) \<and>
   list_all (\<lambda>n. n \<le> PREFIX) (filter (prefix PREFIX) (caches_keys bare_storage)) \<and>
   version_match PREFIX = None \<and>
   getCachedVersion offline_env bare_storage = Some ''v0'' \<and>
   line_feed_name \<in> set (filter (prefix PREFIX) (caches_keys line_feed_storage)) \<and>
   list_all (\<lambda>n. n \<le> line_feed_name) (filter (prefix PREFIX) (caches_keys line_feed_storage)) \<and>
   version_match line_feed_name = None \<and>
   getCachedVersion offline_env line_feed_storage = Some ''v7''"
proof -
  have f: "filter (prefix PREFIX) (caches_keys foreign_storage) = []" by code_simp
  have m1: "''totem-cache-v1'' \<in> set (filter (prefix PREFIX) (caches_keys (caches v1_state)))"
    by code_simp
  have g1: "list_all (\<lambda>n. n \<le> ''totem-cache-v1'') (filter (prefix PREFIX) (caches_keys (caches v1_state)))"
    by code_simp
  have v1: "version_match ''totem-cache-v1'' = Some ''v1''" by code_simp
  have d1: "drop (length PREFIX) ''totem-cache-v1'' = ''v1''" by code_simp
  have h1: "\<not> is_line_terminator CHR ''v''" by code_simp
  have t1: "list_all (\<lambda>c. \<not> is_line_terminator c) ''v1''" by code_simp
  have m0: "PREFIX \<in> set (filter (prefix PREFIX) (caches_keys bare_storage))" by code_simp
  have g0: "list_all (\<lambda>n. n \<le> PREFIX) (filter (prefix PREFIX) (caches_keys bare_storage))"
    by code_simp
  have s0: "(case open_error offline_env PREFIX of
                Some msg \<Rightarrow> None
              | None \<Rightarrow>
                  (case map_of (the_cache bare_storage PREFIX) (absolute offline_env ''/version.json'') of
                     None \<Rightarrow> None
                   | Some r \<Rightarrow> (case content r of Text t \<Rightarrow> None | Json v \<Rightarrow> or_null v))) = Some ''v0''"
    by code_simp
  have m7: "line_feed_name \<in> set (filter (prefix PREFIX) (caches_keys line_feed_storage))"
    by code_simp
  have g7: "list_all (\<lambda>n. n \<le> line_feed_name) (filter (prefix PREFIX) (caches_keys line_feed_storage))"
    by code_simp
  have v7: "version_match line_feed_name = None" by code_simp
  have s7: "(case open_error offline_env line_feed_name of
                Some msg \<Rightarrow> None
              | None \<Rightarrow>
                  (case map_of (the_cache line_feed_storage line_feed_name)
                          (absolute offline_env ''/version.json'') of
                     None \<Rightarrow> None
                   | Some r \<Rightarrow> (case content r of Text t \<Rightarrow> None | Json v \<Rightarrow> or_null v))) = Some ''v7''"
    by code_simp
  note T = getCachedVersion_cases
  from f T [of foreign_storage offline_env]
  have a: "getCachedVersion offline_env foreign_storage = None" by blast
  have g1': "\<forall>n \<in> set (filter (prefix PREFIX) (caches_keys (caches v1_state))). n \<le> ''totem-cache-v1''"
    using g1 by (simp only: list_all_iff)
  from m1 g1' v1 T [of "caches v1_state" offline_env]
  have b: "getCachedVersion offline_env (caches v1_state) = Some ''v1''" by blast
  have ne1: "drop (length PREFIX) ''totem-cache-v1'' \<noteq> []" by (simp only: d1) simp
  have t1': "\<forall>c \<in> set (drop (length PREFIX) ''totem-cache-v1''). \<not> is_line_terminator c"
    using t1 by (simp only: d1 list_all_iff)
  from m1 g1' ne1 t1' T [of "caches v1_state" offline_env]
  have "getCachedVersion offline_env (caches v1_state) = Some (drop (length PREFIX) ''totem-cache-v1'')"
    by blast
  then have b': "getCachedVersion offline_env (caches v1_state) = Some ''v1''"
    by (simp only: d1)
  have g0': "\<forall>n \<in> set (filter (prefix PREFIX) (caches_keys bare_storage)). n \<le> PREFIX"
    using g0 by (simp only: list_all_iff)
  from T [of bare_storage offline_env] have v0: "version_match PREFIX = None" by blast
  from m0 g0' v0 T [of bare_storage offline_env]
  have "getCachedVersion offline_env bare_storage =
     (case open_error offline_env PREFIX of
                Some msg \<Rightarrow> None
              | None \<Rightarrow>
                  (case map_of (the_cache bare_storage PREFIX) (absolute offline_env ''/version.json'') of
                     None \<Rightarrow> None
                   | Some r \<Rightarrow> (case content r of Text t \<Rightarrow> None | Json v \<Rightarrow> or_null v)))"
    by blast
  then have c: "getCachedVersion offline_env bare_storage = Some ''v0''"
    by (simp only: s0)
  have g7': "\<forall>n \<in> set (filter (prefix PREFIX) (caches_keys line_feed_storage)). n \<le> line_feed_name"
    using g7 by (simp only: list_all_iff)
  from m7 g7' v7 T [of line_feed_storage offline_env]
  have "getCachedVersion offline_env line_feed_storage =
     (case open_error offline_env line_feed_name of
                Some msg \<Rightarrow> None
              | None \<Rightarrow>
                  (case map_of (the_cache line_feed_storage line_feed_name)
                          (absolute offline_env ''/version.json'') of
                     None \<Rightarrow> None
                   | Some r \<Rightarrow> (case content r of Text t \<Rightarrow> None | Json v \<Rightarrow> or_null v)))"
    by blast
  then have d: "getCachedVersion offline_env line_feed_storage = Some ''v7''"
    by (simp only: s7)
  from f a m1 g1 v1 d1 h1 t1 b m0 g0 v0 c m7 g7 v7 d show ?thesis by blast
qed

theorem getCachedVersion_fallback_counterexample:
  "filter (prefix PREFIX) (caches_keys foreign_storage) = [] \<and>
   map_of (the_cache foreign_storage ''legacy-cache'') (absolute offline_env ''/version.json'') =
     Some (descriptor ''20240101'') \<and>
   getCachedVersion offline_env foreign_storage = None \<and>
   drop (length PREFIX) two_line_name = ''a'' @ [CHR 0x0A] @ ''b'' \<and>
   getCachedVersion offline_env [(two_line_name, [])] = Some ''a''"
  by code_simp

section \<open>Properties of install and activate\<close>

lemma caches_delete_put [simp]:
  "caches_delete n (caches_put n u r cs) = caches_delete n cs"
  by (induction cs) (auto simp: caches_delete_def caches_put_def)

lemma caches_keys_put [simp]: "caches_keys (caches_put n u r cs) = caches_keys cs"
  by (induction cs) (auto simp: caches_keys_def caches_put_def)

lemma settle_asset_fst: "fst (settle_asset e n v st a) = (a, asset_ok e n v a)"
  by (simp add: settle_asset_def asset_ok_def split: option.splits)

lemma settle_asset_frame:
  "CACHE_NAME (snd (settle_asset e n v st a)) = CACHE_NAME st"
  "CURRENT_VERSION (snd (settle_asset e n v st a)) = CURRENT_VERSION st"
  "caches_keys (caches (snd (settle_asset e n v st a))) = caches_keys (caches st)"
  "caches_delete n (caches (snd (settle_asset e n v st a))) = caches_delete n (caches st)"
  by (simp_all add: settle_asset_def emit_def split: option.splits)

lemma settle_asset_trace:
  "\<exists>evs. trace (snd (settle_asset e n v st a)) = trace st @ evs \<and> list_all is_download_event evs"
  by (simp add: settle_asset_def emit_def split: option.splits)

lemma settle_asset_offline:
  "net e (absolute e (cacheBustUrl a v (now e))) = None \<Longrightarrow>
   caches (snd (settle_asset e n v st a)) = caches st"
  by (simp add: settle_asset_def)

lemma settle_asset_caches:
  "caches (snd (settle_asset e n v st a)) =
     (if asset_ok e n v a
      then caches_put n (absolute e a) (the (net e (absolute e (cacheBustUrl a v (now e))))) (caches st)
      else caches st)"
  by (simp add: settle_asset_def asset_ok_def emit_def split: option.splits)

lemma settle_all_fst:
  "fst (settle_all e n v as st) = map (\<lambda>a. (a, asset_ok e n v a)) as"
proof (induction as arbitrary: st)
  case Nil
  show ?case by simp
next
  case (Cons a as)
  have "fst (settle_asset e n v st a) = (a, asset_ok e n v a)" by (rule settle_asset_fst)
  with Cons [of "snd (settle_asset e n v st a)"] show ?case
    by (simp add: split_beta)
qed

lemma settle_all_frame:
  "CACHE_NAME (snd (settle_all e n v as st)) = CACHE_NAME st \<and>
  CURRENT_VERSION (snd (settle_all e n v as st)) = CURRENT_VERSION st \<and>
  caches_keys (caches (snd (settle_all e n v as st))) = caches_keys (caches st) \<and>
  caches_delete n (caches (snd (settle_all e n v as st))) = caches_delete n (caches st)"
  by (induction as arbitrary: st) (simp_all add: split_beta settle_asset_frame)

lemma settle_all_trace:
  "\<exists>evs. trace (snd (settle_all e n v as st)) = trace st @ evs \<and> list_all is_download_event evs"
proof (induction as arbitrary: st)
  case Nil
  show ?case by simp
next
  case (Cons a as)
  obtain evs1 where 1: "trace (snd (settle_asset e n v st a)) = trace st @ evs1"
    "list_all is_download_event evs1" using settle_asset_trace by blast
  obtain evs2 where 2:
    "trace (snd (settle_all e n v as (snd (settle_asset e n v st a)))) =
       trace (snd (settle_asset e n v st a)) @ evs2"
    "list_all is_download_event evs2" using Cons by blast
  from 1 2 have "trace (snd (settle_all e n v (a # as) st)) = trace st @ (evs1 @ evs2) \<and>
      list_all is_download_event (evs1 @ evs2)"
    by (simp add: split_beta)
  then show ?case by blast
qed

lemma settle_all_offline:
  "\<forall>u. net e u = None \<Longrightarrow> caches (snd (settle_all e n v as st)) = caches st"
  by (induction as arbitrary: st) (simp_all add: split_beta settle_asset_offline)

lemma settle_all_caches:
  "caches (snd (settle_all e n v as st)) =
     fold (\<lambda>a cs. if asset_ok e n v a
                   then caches_put n (absolute e a)
                          (the (net e (absolute e (cacheBustUrl a v (now e))))) cs
                   else cs) as (caches st)"
  by (induction as arbitrary: st) (simp_all add: split_beta settle_asset_caches)

lemma emit_fetches:
  "fold (\<lambda>a. emit (Fetch (f a))) as st = st\<lparr>trace := trace st @ map (\<lambda>a. Fetch (f a)) as\<rparr>"
  by (induction as arbitrary: st) (simp_all add: emit_def)

lemma download_all_fst:
  "fst (download_all e n v as st) = map (\<lambda>a. (a, asset_ok e n v a)) as"
  by (simp add: download_all_def settle_all_fst)

lemma download_all_frame:
  "CACHE_NAME (snd (download_all e n v as st)) = CACHE_NAME st \<and>
  CURRENT_VERSION (snd (download_all e n v as st)) = CURRENT_VERSION st \<and>
  caches_keys (caches (snd (download_all e n v as st))) = caches_keys (caches st) \<and>
  caches_delete n (caches (snd (download_all e n v as st))) = caches_delete n (caches st)"
  by (simp add: download_all_def settle_all_frame emit_fetches)

lemma download_all_trace:
  "\<exists>evs. trace (snd (download_all e n v as st)) = trace st @ evs \<and> list_all is_download_event evs"
proof -
  let ?fs = "map (\<lambda>a. Fetch (absolute e (cacheBustUrl a v (now e)))) as"
  obtain evs where 1:
    "trace (snd (download_all e n v as st)) = (trace st @ ?fs) @ evs" "list_all is_download_event evs"
    using settle_all_trace [of e n v as "st\<lparr>trace := trace st @ ?fs\<rparr>"]
    by (auto simp: download_all_def emit_fetches)
  have "list_all is_download_event ?fs" by (simp add: list_all_iff)
  with 1 have "trace (snd (download_all e n v as st)) = trace st @ (?fs @ evs) \<and>
      list_all is_download_event (?fs @ evs)"
    by simp
  then show ?thesis by blast
qed

lemma download_all_offline:
  "\<forall>u. net e u = None \<Longrightarrow> caches (snd (download_all e n v as st)) = caches st"
  by (simp add: download_all_def settle_all_offline emit_fetches)

lemma download_all_caches:
  "caches (snd (download_all e n v as st)) =
     fold (\<lambda>a cs. if asset_ok e n v a
                   then caches_put n (absolute e a)
                          (the (net e (absolute e (cacheBustUrl a v (now e))))) cs
                   else cs) as (caches st)"
  by (simp add: download_all_def settle_all_caches emit_fetches)

lemma addAll_offline:
  "\<forall>u. net e u = None \<Longrightarrow> fst (addAll e n (getAssets e) st) = False \<and> caches (snd (addAll e n (getAssets e) st)) = caches st
    \<and> CACHE_NAME (snd (addAll e n (getAssets e) st)) = CACHE_NAME st \<and> CURRENT_VERSION (snd (addAll e n (getAssets e) st)) = CURRENT_VERSION st"
  by (simp add: addAll_def getAssets_def emit_def Let_def)

lemma delete_all_Nil [simp]: "delete_all [] st = st"
  by (simp add: delete_all_def)

lemma delete_all_Cons [simp]: "delete_all (n # ns) st = delete_all ns (delete_cache n st)"
  by (simp add: delete_all_def)

lemma delete_cache_simps [simp]:
  "CACHE_NAME (delete_cache n st) = CACHE_NAME st"
  "CURRENT_VERSION (delete_cache n st) = CURRENT_VERSION st"
  "caches (delete_cache n st) = caches_delete n (caches st)"
  "trace (delete_cache n st) = trace st @ [CacheDelete n]"
  by (simp_all add: delete_cache_def emit_def)

lemma delete_all_pointer [simp]:
  "CACHE_NAME (delete_all ns st) = CACHE_NAME st"
  "CURRENT_VERSION (delete_all ns st) = CURRENT_VERSION st"
  by (induction ns arbitrary: st) simp_all

lemma delete_all_trace [simp]: "trace (delete_all ns st) = trace st @ map CacheDelete ns"
  by (induction ns arbitrary: st) simp_all

lemma delete_all_caches [simp]:
  "caches (delete_all ns st) = filter (\<lambda>g. fst g \<notin> set ns) (caches st)"
  by (induction ns arbitrary: st) (auto simp: caches_delete_def intro: filter_cong)

lemma initializeCacheName_trace:
  "\<exists>n. trace (initializeCacheName e st) = trace st @ [Fetch (absolute e (versionUrl e)), SetPointer n]"
  by (simp add: initializeCacheName_def fetchVersion_def set_pointer_def emit_def Let_def)

text \<open>
  Claim C3. \<open>initializeCacheName\<close> resolves the version in this order: a known remote
  version is adopted whatever the local state is; otherwise a known local version is
  adopted; otherwise the pointer's name becomes the hardcoded default. Fully offline with
  no prior generation (and a storage that opens), install succeeds and leaves exactly one
  generation, named by the default.
\<close>

theorem initializeCacheName_priority:
  "(truthy (fetchVersion_result e) \<longrightarrow>
      CACHE_NAME (initializeCacheName e st) = PREFIX @ the (fetchVersion_result e) \<and>
      CURRENT_VERSION (initializeCacheName e st) = fetchVersion_result e) \<and>
   (\<not> truthy (fetchVersion_result e) \<and> truthy (getCachedVersion e (caches st)) \<longrightarrow>
      CACHE_NAME (initializeCacheName e st) = PREFIX @ the (getCachedVersion e (caches st)) \<and>
      CURRENT_VERSION (initializeCacheName e st) = getCachedVersion e (caches st)) \<and>
   (\<not> truthy (fetchVersion_result e) \<and> \<not> truthy (getCachedVersion e (caches st)) \<longrightarrow>
      CACHE_NAME (initializeCacheName e st) = DEFAULT_CACHE_NAME) \<and>
   ((\<forall>u. net e u = None) \<and> caches st = [] \<and> open_error e DEFAULT_CACHE_NAME = None \<longrightarrow>
      (\<exists>st'. install e st = Inr st' \<and> CACHE_NAME st' = DEFAULT_CACHE_NAME \<and>
             caches st' = [(DEFAULT_CACHE_NAME, [])]))"
proof -
  have c1: "truthy (fetchVersion_result e) \<longrightarrow>
      CACHE_NAME (initializeCacheName e st) = PREFIX @ the (fetchVersion_result e) \<and>
      CURRENT_VERSION (initializeCacheName e st) = fetchVersion_result e"
    by (auto simp: initializeCacheName_def fetchVersion_def set_pointer_def emit_def truthy_def
        split: option.splits)
  have c2: "\<not> truthy (fetchVersion_result e) \<and> truthy (getCachedVersion e (caches st)) \<longrightarrow>
      CACHE_NAME (initializeCacheName e st) = PREFIX @ the (getCachedVersion e (caches st)) \<and>
      CURRENT_VERSION (initializeCacheName e st) = getCachedVersion e (caches st)"
    by (auto simp: initializeCacheName_def fetchVersion_def set_pointer_def emit_def truthy_def Let_def
        split: option.splits)
  have c3: "\<not> truthy (fetchVersion_result e) \<and> \<not> truthy (getCachedVersion e (caches st)) \<longrightarrow>
      CACHE_NAME (initializeCacheName e st) = DEFAULT_CACHE_NAME"
    by (simp add: initializeCacheName_def fetchVersion_def emit_def Let_def)
  have c4: "\<exists>st'. install e st = Inr st' \<and> CACHE_NAME st' = DEFAULT_CACHE_NAME \<and>
             caches st' = [(DEFAULT_CACHE_NAME, [])]"
    if h: "(\<forall>u. net e u = None) \<and> caches st = [] \<and> open_error e DEFAULT_CACHE_NAME = None"
  proof -
    from h have r: "fetchVersion_result e = None" by (simp add: fetchVersion_result_def)
    from h have l: "getCachedVersion e (caches st) = None"
      by (simp add: getCachedVersion_def caches_keys_def)
    from r l have i: "CACHE_NAME (initializeCacheName e st) = DEFAULT_CACHE_NAME"
      "caches (initializeCacheName e st) = caches st"
      by (simp_all add: initializeCacheName_def fetchVersion_def emit_def Let_def truthy_def)
    from h have a: "\<forall>u. net e u = None" by simp
    show ?thesis
      using h i addAll_offline [OF a] download_all_offline [OF a] download_all_frame
      by (simp add: install_def Let_def split_beta open_cache_def emit_def caches_open_def
          caches_has_def caches_keys_def)
  qed
  from c1 c2 c3 c4 show ?thesis by blast
qed

theorem initializeCacheName_priority_witness:
  "truthy (fetchVersion_result (online_env ''v2'')) \<and>
   CACHE_NAME (initializeCacheName (online_env ''v2'') v1_state) = ''totem-cache-v2'' \<and>
   CURRENT_VERSION (initializeCacheName (online_env ''v2'') v1_state) = Some ''v2'' \<and>
   \<not> truthy (fetchVersion_result offline_env) \<and>
   truthy (getCachedVersion offline_env (caches v1_state)) \<and>
   CACHE_NAME (initializeCacheName offline_env v1_state) = ''totem-cache-v1'' \<and>
   CURRENT_VERSION (initializeCacheName offline_env v1_state) = Some ''v1'' \<and>
   \<not> truthy (getCachedVersion offline_env (caches (initial_state []))) \<and>
   CACHE_NAME (initializeCacheName offline_env (initial_state [])) = ''totem-cache-v1'' \<and>
   net offline_env = (\<lambda>u. None) \<and>
   caches (initial_state []) = [] \<and>
   open_error offline_env DEFAULT_CACHE_NAME = None \<and>
   map_sum id caches (install offline_env (initial_state [])) = Inr [(''totem-cache-v1'', [])]"
proof -
  have r2: "truthy (fetchVersion_result (online_env ''v2''))" by code_simp
  have r2v: "fetchVersion_result (online_env ''v2'') = Some ''v2''" by code_simp
  have r0: "\<not> truthy (fetchVersion_result offline_env)" by code_simp
  have l1: "truthy (getCachedVersion offline_env (caches v1_state))" by code_simp
  have l1v: "getCachedVersion offline_env (caches v1_state) = Some ''v1''" by code_simp
  have l0: "\<not> truthy (getCachedVersion offline_env (caches (initial_state [])))" by code_simp
  have n0: "\<forall>u. net offline_env u = None" by (simp add: offline_env_def)
  have c0: "caches (initial_state []) = []" by code_simp
  have o0: "open_error offline_env DEFAULT_CACHE_NAME = None" by code_simp
  have d: "DEFAULT_CACHE_NAME = ''totem-cache-v1''" by code_simp
  have p: "PREFIX = ''totem-cache-''" by code_simp
  from r2 initializeCacheName_priority [of "online_env ''v2''" v1_state]
  have a: "CACHE_NAME (initializeCacheName (online_env ''v2'') v1_state) = ''totem-cache-v2'' \<and>
   CURRENT_VERSION (initializeCacheName (online_env ''v2'') v1_state) = Some ''v2''"
    by (simp add: r2v p)
  from r0 l1 initializeCacheName_priority [of offline_env v1_state]
  have b: "CACHE_NAME (initializeCacheName offline_env v1_state) = ''totem-cache-v1'' \<and>
   CURRENT_VERSION (initializeCacheName offline_env v1_state) = Some ''v1''"
    by (simp add: l1v p)
  from r0 l0 n0 c0 o0 initializeCacheName_priority [of offline_env "initial_state []"]
  have c: "CACHE_NAME (initializeCacheName offline_env (initial_state [])) = DEFAULT_CACHE_NAME \<and>
      (\<exists>st'. install offline_env (initial_state []) = Inr st' \<and> CACHE_NAME st' = DEFAULT_CACHE_NAME \<and>
             caches st' = [(DEFAULT_CACHE_NAME, [])])"
    by blast
  then have c': "CACHE_NAME (initializeCacheName offline_env (initial_state [])) = ''totem-cache-v1'' \<and>
      map_sum id caches (install offline_env (initial_state [])) = Inr [(''totem-cache-v1'', [])]"
    by (auto simp: d)
  have n0': "net offline_env = (\<lambda>u. None)"
    by (simp add: offline_env_def)
  from r2 a r0 l1 b l0 c' n0' c0 o0 show ?thesis by blast
qed

text \<open>
  Claim C10. When the remote and the cached version are both unknown,
  \<open>initializeCacheName\<close> sets \<open>CACHE_NAME\<close> to the default and does not touch
  \<open>CURRENT_VERSION\<close>, so a version that was unset stays unset beside the name
  \<open>totem-cache-v1\<close>. An activate event that finds \<open>CURRENT_VERSION\<close> unset runs
  \<open>initializeCacheName\<close> again, network fetch included, and when both versions are
  unknown again it leaves \<open>CURRENT_VERSION\<close> unset for the next activate event.
\<close>

theorem default_resolution_leaves_version_unset:
  "(\<not> truthy (fetchVersion_result e) \<and> \<not> truthy (getCachedVersion e (caches st)) \<longrightarrow>
      CACHE_NAME (initializeCacheName e st) = DEFAULT_CACHE_NAME \<and>
      CURRENT_VERSION (initializeCacheName e st) = CURRENT_VERSION st) \<and>
   (\<not> truthy (CURRENT_VERSION st) \<longrightarrow>
      activate e st =
        delete_all
          (filter (\<lambda>name. prefix PREFIX name \<and> name \<noteq> CACHE_NAME (initializeCacheName e st))
             (caches_keys (caches (initializeCacheName e st))))
          (initializeCacheName e st) \<and>
      Fetch (absolute e (versionUrl e)) \<in> set (new_events st (activate e st))) \<and>
   (\<not> truthy (CURRENT_VERSION st) \<and> \<not> truthy (fetchVersion_result e) \<and>
    \<not> truthy (getCachedVersion e (caches st)) \<longrightarrow>
      CACHE_NAME (activate e st) = DEFAULT_CACHE_NAME \<and>
      CURRENT_VERSION (activate e st) = CURRENT_VERSION st \<and>
      \<not> truthy (CURRENT_VERSION (activate e st)))"
proof -
  have c1: "CACHE_NAME (initializeCacheName e st) = DEFAULT_CACHE_NAME \<and>
      CURRENT_VERSION (initializeCacheName e st) = CURRENT_VERSION st"
    if "\<not> truthy (fetchVersion_result e) \<and> \<not> truthy (getCachedVersion e (caches st))"
    using that by (simp add: initializeCacheName_def fetchVersion_def emit_def Let_def)
  have c2: "activate e st =
        delete_all
          (filter (\<lambda>name. prefix PREFIX name \<and> name \<noteq> CACHE_NAME (initializeCacheName e st))
             (caches_keys (caches (initializeCacheName e st))))
          (initializeCacheName e st)"
    if "\<not> truthy (CURRENT_VERSION st)"
    using that by (simp add: activate_def Let_def)
  have c3: "Fetch (absolute e (versionUrl e)) \<in> set (new_events st (activate e st))"
    if u: "\<not> truthy (CURRENT_VERSION st)"
  proof -
    obtain n where "trace (initializeCacheName e st) =
        trace st @ [Fetch (absolute e (versionUrl e)), SetPointer n]"
      using initializeCacheName_trace by blast
    then show ?thesis by (simp add: c2 [OF u] new_events_def)
  qed
  have c4: "CACHE_NAME (activate e st) = DEFAULT_CACHE_NAME \<and>
      CURRENT_VERSION (activate e st) = CURRENT_VERSION st \<and>
      \<not> truthy (CURRENT_VERSION (activate e st))"
    if "\<not> truthy (CURRENT_VERSION st) \<and> \<not> truthy (fetchVersion_result e) \<and>
        \<not> truthy (getCachedVersion e (caches st))"
    using that c1 c2 by simp
  from c1 c2 c3 c4 show ?thesis by blast
qed

theorem default_resolution_leaves_version_unset_witness:
  "\<not> truthy (fetchVersion_result offline_env) \<and>
   \<not> truthy (getCachedVersion offline_env (caches (initial_state []))) \<and>
   \<not> truthy (CURRENT_VERSION (initial_state [])) \<and>
   CACHE_NAME (initializeCacheName offline_env (initial_state [])) = ''totem-cache-v1'' \<and>
   CURRENT_VERSION (initializeCacheName offline_env (initial_state [])) = None \<and>
   Fetch ''https://kiosk.example/version.json?t=1733054400000''
     \<in> set (new_events (initial_state []) (activate offline_env (initial_state []))) \<and>
   CACHE_NAME (activate offline_env (initial_state [])) = ''totem-cache-v1'' \<and>
   CURRENT_VERSION (activate offline_env (initial_state [])) = None"
proof -
  have r: "\<not> truthy (fetchVersion_result offline_env)" by code_simp
  have l: "\<not> truthy (getCachedVersion offline_env (caches (initial_state [])))" by code_simp
  have u: "\<not> truthy (CURRENT_VERSION (initial_state []))" by code_simp
  have cv: "CURRENT_VERSION (initial_state []) = None" by code_simp
  have d: "DEFAULT_CACHE_NAME = ''totem-cache-v1''" by code_simp
  have f: "absolute offline_env (versionUrl offline_env) =
      ''https://kiosk.example/version.json?t=1733054400000''" by code_simp
  from r l u default_resolution_leaves_version_unset [of offline_env "initial_state []"]
  have "CACHE_NAME (initializeCacheName offline_env (initial_state [])) = DEFAULT_CACHE_NAME \<and>
      CURRENT_VERSION (initializeCacheName offline_env (initial_state [])) = CURRENT_VERSION (initial_state []) \<and>
      Fetch (absolute offline_env (versionUrl offline_env))
        \<in> set (new_events (initial_state []) (activate offline_env (initial_state []))) \<and>
      CACHE_NAME (activate offline_env (initial_state [])) = DEFAULT_CACHE_NAME \<and>
      CURRENT_VERSION (activate offline_env (initial_state [])) = CURRENT_VERSION (initial_state [])"
    by blast
  then show ?thesis using r l u by (simp only: cv d f) simp
qed

section \<open>Properties of the update\<close>

lemma gate_passes_results:
  "gate_passes e v = hasEssential (getAssets e) (fst (download_all e (PREFIX @ v) v (getAssets e) st))"
  by (simp add: gate_passes_def download_all_fst)

lemma gate_passes_root:
  "basePath e = [] \<Longrightarrow>
   gate_passes e v =
     (asset_ok e (PREFIX @ v) v ''/index.html'' \<or> asset_ok e (PREFIX @ v) v ''/main.js'' \<or>
      asset_ok e (PREFIX @ v) v ''/style.css'' \<or> asset_ok e (PREFIX @ v) v ''/version.json'')"
  by (simp add: gate_passes_def hasEssential_def getAssets_def essentialFiles_def)

lemma update_open_fails:
  "open_error e (PREFIX @ v) = Some msg \<Longrightarrow>
   updateCacheForNewVersion e v st = broadcast e (CACHE_UPDATE_FAILED msg) st"
  by (simp add: updateCacheForNewVersion_def update_open_def update_failed_def update_download_def
      update_gate_def update_cleanup_def update_notify_def)

lemma update_gate_fails:
  assumes "open_error e (PREFIX @ v) = None" "\<not> gate_passes e v"
  shows "updateCacheForNewVersion e v st =
     delete_cache (PREFIX @ v)
       (snd (download_all e (PREFIX @ v) v (getAssets e) (open_cache (PREFIX @ v) st)))"
  using assms gate_passes_results [of e v "open_cache (PREFIX @ v) st"]
  by (simp add: updateCacheForNewVersion_def update_open_def update_failed_def update_download_def
      update_gate_def update_cleanup_def update_notify_def Let_def split_beta)

lemma update_gate_passes:
  assumes "open_error e (PREFIX @ v) = None" "gate_passes e v"
  shows "updateCacheForNewVersion e v st =
     (let st3 = set_pointer v (PREFIX @ v)
                  (snd (download_all e (PREFIX @ v) v (getAssets e) (open_cache (PREFIX @ v) st)))
      in broadcast e (CACHE_UPDATED v)
           (delete_all (filter (\<lambda>name. prefix PREFIX name \<and> name \<noteq> PREFIX @ v)
                          (caches_keys (caches st3))) st3))"
  using assms gate_passes_results [of e v "open_cache (PREFIX @ v) st"]
  by (simp add: updateCacheForNewVersion_def update_open_def update_failed_def update_download_def
      update_gate_def update_cleanup_def update_notify_def Let_def split_beta)

lemma caches_delete_open [simp]: "caches_delete n (caches_open n cs) = caches_delete n cs"
  by (simp add: caches_open_def caches_delete_def)

lemma caches_delete_absent: "\<not> caches_has cs n \<Longrightarrow> caches_delete n cs = cs"
  by (induction cs) (auto simp: caches_delete_def caches_has_def caches_keys_def)

lemma caches_has_delete [simp]: "\<not> caches_has (caches_delete n cs) n"
  by (auto simp: caches_delete_def caches_has_def caches_keys_def)

lemma download_event_not_post: "list_all is_download_event evs \<Longrightarrow> filter is_post evs = []"
proof (induction evs)
  case Nil
  show ?case by simp
next
  case (Cons ev evs)
  then show ?case by (cases ev) simp_all
qed

lemma download_event_not_delete: "list_all is_download_event evs \<Longrightarrow> list_all (\<lambda>ev. \<not> is_delete ev) evs"
proof (induction evs)
  case Nil
  show ?case by simp
next
  case (Cons ev evs)
  then show ?case by (cases ev) simp_all
qed

lemma open_cache_simps [simp]:
  "CACHE_NAME (open_cache n st) = CACHE_NAME st"
  "CURRENT_VERSION (open_cache n st) = CURRENT_VERSION st"
  "caches (open_cache n st) = caches_open n (caches st)"
  "trace (open_cache n st) = trace st @ [CacheOpen n]"
  by (simp_all add: open_cache_def emit_def)

lemma set_pointer_simps [simp]:
  "CACHE_NAME (set_pointer v n st) = n"
  "CURRENT_VERSION (set_pointer v n st) = Some v"
  "caches (set_pointer v n st) = caches st"
  "trace (set_pointer v n st) = trace st @ [SetPointer n]"
  by (simp_all add: set_pointer_def emit_def)

lemma broadcast_simps [simp]:
  "CACHE_NAME (broadcast e m st) = CACHE_NAME st"
  "CURRENT_VERSION (broadcast e m st) = CURRENT_VERSION st"
  "caches (broadcast e m st) = caches st"
  "trace (broadcast e m st) = trace st @ map (\<lambda>c. PostMessage c m) (clients e)"
  by (simp_all add: broadcast_def)

lemma caches_keys_open:
  "caches_keys (caches_open n cs) = (if n \<in> set (caches_keys cs) then caches_keys cs else caches_keys cs @ [n])"
  by (simp add: caches_open_def caches_has_def caches_keys_def)

lemma keys_after_delete:
  "caches_keys (filter (\<lambda>g. fst g \<notin> set (filter P (caches_keys cs))) cs) =
   filter (\<lambda>n. \<not> P n) (caches_keys cs)"
proof -
  have "filter (\<lambda>g. fst g \<notin> set (filter P (caches_keys cs))) cs = filter (\<lambda>g. \<not> P (fst g)) cs"
    by (rule filter_cong) (auto simp: caches_keys_def)
  then show ?thesis by (simp add: caches_keys_def filter_map comp_def)
qed

lemma filter_eq_singleton:
  "distinct xs \<Longrightarrow> x \<in> set xs \<Longrightarrow> filter (\<lambda>n. n = x) xs = [x]"
proof (induction xs)
  case Nil
  then show ?case by simp
next
  case (Cons y ys)
  then show ?case by (auto simp: filter_empty_conv)
qed

lemma update_gate_fails_pointer:
  assumes "open_error e (PREFIX @ v) = None \<and> \<not> gate_passes e v"
  shows "CACHE_NAME (updateCacheForNewVersion e v st) = CACHE_NAME st \<and>
         CURRENT_VERSION (updateCacheForNewVersion e v st) = CURRENT_VERSION st"
  using assms download_all_frame [of e "PREFIX @ v" v "getAssets e" "open_cache (PREFIX @ v) st"]
  by (simp add: update_gate_fails)

lemma update_success_keys:
  assumes "open_error e (PREFIX @ v) = None" "gate_passes e v"
  shows "caches_keys (caches (updateCacheForNewVersion e v st)) =
     filter (\<lambda>n. \<not> (prefix PREFIX n \<and> n \<noteq> PREFIX @ v)) (caches_keys (caches_open (PREFIX @ v) (caches st)))"
proof -
  let ?n = "PREFIX @ v"
  let ?st2 = "snd (download_all e ?n v (getAssets e) (open_cache ?n st))"
  have k: "caches_keys (caches ?st2) = caches_keys (caches_open ?n (caches st))"
    using download_all_frame [of e ?n v "getAssets e" "open_cache ?n st"] by simp
  show ?thesis
    using keys_after_delete [of "\<lambda>n. prefix PREFIX n \<and> n \<noteq> PREFIX @ v" "caches ?st2"]
    by (simp add: update_gate_passes [OF assms] Let_def k)
qed

lemma update_success_caches:
  assumes "open_error e (PREFIX @ v) = None" "gate_passes e v"
  shows "caches (updateCacheForNewVersion e v st) =
     filter (\<lambda>g. \<not> (prefix PREFIX (fst g) \<and> fst g \<noteq> PREFIX @ v))
       (fold (\<lambda>a cs. if asset_ok e (PREFIX @ v) v a
                     then caches_put (PREFIX @ v) (absolute e a)
                            (the (net e (absolute e (cacheBustUrl a v (now e))))) cs
                     else cs) (getAssets e) (caches_open (PREFIX @ v) (caches st)))"
proof -
  let ?n = "PREFIX @ v"
  let ?st2 = "snd (download_all e ?n v (getAssets e) (open_cache ?n st))"
  have "filter (\<lambda>g. fst g \<notin> set (filter (\<lambda>name. prefix PREFIX name \<and> name \<noteq> ?n)
                                      (caches_keys (caches ?st2)))) (caches ?st2) =
        filter (\<lambda>g. \<not> (prefix PREFIX (fst g) \<and> fst g \<noteq> ?n)) (caches ?st2)"
    by (rule filter_cong) (auto simp: caches_keys_def)
  then show ?thesis
    by (simp add: update_gate_passes [OF assms] Let_def download_all_caches)
qed

lemma update_keeps_distinct:
  assumes "distinct (caches_keys (caches st))"
  shows "distinct (caches_keys (caches (updateCacheForNewVersion e v st)))"
proof (cases "open_error e (PREFIX @ v)")
  case (Some msg)
  with assms show ?thesis by (simp add: update_open_fails)
next
  case None
  from assms have d: "distinct (caches_keys (caches_open (PREFIX @ v) (caches st)))"
    by (simp add: caches_keys_open)
  show ?thesis
  proof (cases "gate_passes e v")
    case True
    with None d show ?thesis by (simp add: update_success_keys)
  next
    case False
    have "caches (updateCacheForNewVersion e v st) = caches_delete (PREFIX @ v) (caches st)"
      using download_all_frame [of e "PREFIX @ v" v "getAssets e" "open_cache (PREFIX @ v) st"]
      by (simp add: update_gate_fails [OF None False])
    with assms show ?thesis by (simp add: caches_delete_def caches_keys_def distinct_map_filter)
  qed
qed

lemma assets_distinct: "distinct (map (absolute e) (getAssets e))"
  by (cases "basePath e") (simp_all add: getAssets_def absolute_def)

lemma cache_put_other: "u' \<noteq> u \<Longrightarrow> map_of (cache_put u r c) u' = map_of c u'"
  by (induction c) auto

lemma cache_put_same: "map_of (cache_put u r c) u = Some r"
  by (induction c) auto

lemma the_cache_put:
  "map_of (the_cache (caches_put n u r cs) n) u' =
     (if u' = u \<and> caches_has cs n then Some r else map_of (the_cache cs n) u')"
proof (induction cs)
  case Nil
  show ?case by (simp add: caches_put_def the_cache_def caches_has_def caches_keys_def)
next
  case (Cons g cs)
  obtain m c where g: "g = (m, c)" by (cases g)
  show ?case
  proof (cases "m = n")
    case True
    then show ?thesis
      by (simp add: g caches_put_def the_cache_def caches_has_def caches_keys_def cache_put_other
          cache_put_same)
  next
    case False
    with Cons show ?thesis
      by (simp add: g caches_put_def the_cache_def caches_has_def caches_keys_def)
  qed
qed

lemma caches_has_put: "caches_has (caches_put n u r cs) m = caches_has cs m"
  by (simp add: caches_has_def)

lemma fold_put_other:
  "u \<notin> f ` set as \<Longrightarrow>
   map_of (the_cache (fold (\<lambda>a cs. if P a then caches_put n (f a) (g a) cs else cs) as cs) n) u =
   map_of (the_cache cs n) u"
  by (induction as arbitrary: cs) (auto simp: the_cache_put)

lemma fold_put_lookup:
  assumes "a \<in> set as" "distinct (map f as)" "P a" "caches_has cs n"
  shows "map_of (the_cache (fold (\<lambda>a cs. if P a then caches_put n (f a) (g a) cs else cs) as cs) n) (f a) =
         Some (g a)"
  using assms
proof (induction as arbitrary: cs)
  case Nil
  then show ?case by simp
next
  case (Cons x xs)
  show ?case
  proof (cases "x = a")
    case True
    from Cons.prems(2) True have "f a \<notin> f ` set xs" by auto
    with Cons.prems True show ?thesis
      by (simp add: fold_put_other the_cache_put)
  next
    case False
    with Cons.prems have "a \<in> set xs" "distinct (map f xs)" by auto
    moreover from Cons.prems(4) have "caches_has (if P x then caches_put n (f x) (g x) cs else cs) n"
      by (simp add: caches_has_put)
    ultimately show ?thesis using Cons.IH Cons.prems(3) by simp
  qed
qed

lemma the_cache_filter:
  "P n \<Longrightarrow> the_cache (filter (\<lambda>g. P (fst g)) cs) n = the_cache cs n"
  by (induction cs) (auto simp: the_cache_def)

lemma caches_has_open: "caches_has (caches_open n cs) n"
  by (simp add: caches_open_def caches_has_def caches_keys_def)

lemma update_success_stored:
  assumes "open_error e (PREFIX @ v) = None" "gate_passes e v"
    "a \<in> set (getAssets e)" "asset_ok e (PREFIX @ v) v a"
  shows "map_of (the_cache (caches (updateCacheForNewVersion e v st)) (PREFIX @ v)) (absolute e a) =
         Some (the (net e (absolute e (cacheBustUrl a v (now e)))))"
proof -
  let ?n = "PREFIX @ v"
  have f: "the_cache (filter (\<lambda>g. \<not> (prefix PREFIX (fst g) \<and> fst g \<noteq> ?n)) cs) ?n = the_cache cs ?n" for cs
    by (rule the_cache_filter [where P = "\<lambda>k. \<not> (prefix PREFIX k \<and> k \<noteq> ?n)"]) simp
  have "map_of (the_cache
          (fold (\<lambda>a cs. if asset_ok e ?n v a
                     then caches_put ?n (absolute e a)
                            (the (net e (absolute e (cacheBustUrl a v (now e))))) cs
                     else cs) (getAssets e) (caches_open ?n (caches st))) ?n) (absolute e a) =
        Some (the (net e (absolute e (cacheBustUrl a v (now e)))))"
    using fold_put_lookup [where f = "absolute e" and P = "asset_ok e ?n v"
        and g = "\<lambda>a. the (net e (absolute e (cacheBustUrl a v (now e))))"
        and as = "getAssets e" and a = a and n = ?n and cs = "caches_open ?n (caches st)"]
      assms(3,4) assets_distinct [of e]
    by (simp add: caches_has_open)
  then show ?thesis
    by (simp only: update_success_caches [OF assms(1,2)] f)
qed

lemma update_gate_fails_trace:
  assumes "open_error e (PREFIX @ v) = None" "\<not> gate_passes e v"
  shows "\<exists>evs. trace (updateCacheForNewVersion e v st) = trace st @ evs \<and> filter is_post evs = []"
proof -
  let ?n = "PREFIX @ v"
  obtain evs where tr:
    "trace (snd (download_all e ?n v (getAssets e) (open_cache ?n st))) =
       trace (open_cache ?n st) @ evs" "list_all is_download_event evs"
    using download_all_trace by blast
  have "trace (updateCacheForNewVersion e v st) = trace st @ (CacheOpen ?n # evs @ [CacheDelete ?n]) \<and>
        filter is_post (CacheOpen ?n # evs @ [CacheDelete ?n]) = []"
    using tr download_event_not_post [OF tr(2)] by (simp add: update_gate_fails [OF assms])
  then show ?thesis by blast
qed

lemma check_version_after_abort:
  assumes "fst (checkForUpdate e st)" "truthy (fetchVersion_result e)"
    "open_error e (PREFIX @ the (fetchVersion_result e)) = None"
    "\<not> gate_passes e (the (fetchVersion_result e))"
  shows "filter is_post (new_events st (onMessage e CHECK_VERSION st)) =
         map (\<lambda>c. PostMessage c (UPDATE_AVAILABLE (the (fetchVersion_result e)))) (clients e)"
proof -
  let ?f = "Fetch (absolute e (versionUrl e))"
  let ?v = "the (fetchVersion_result e)"
  let ?s2 = "emit ?f (emit ?f st)"
  have s1: "snd (checkForUpdate e st) = emit ?f st"
    by (simp add: checkForUpdate_def fetchVersion_def Let_def)
  obtain evs where u: "trace (updateCacheForNewVersion e ?v ?s2) = trace ?s2 @ evs"
    "filter is_post evs = []"
    using update_gate_fails_trace [OF assms(3,4)] by blast
  have m: "onMessage e CHECK_VERSION st =
      broadcast e (UPDATE_AVAILABLE ?v) (updateCacheForNewVersion e ?v ?s2)"
    using assms(1,2) s1 by (simp add: onMessage_def split_beta fetchVersion_def Let_def)
  have p: "filter is_post (map (\<lambda>c. PostMessage c (UPDATE_AVAILABLE ?v)) (clients e)) =
      map (\<lambda>c. PostMessage c (UPDATE_AVAILABLE ?v)) (clients e)"
    by (induction "clients e") (simp_all add: filter_id_conv)
  show ?thesis using u p by (simp add: m new_events_def emit_def)
qed

text \<open>What an update does, at every input, when its generation opens and its gate fails.\<close>

lemma update_gate_abort:
  "open_error e (PREFIX @ v) = None \<and> \<not> gate_passes e v \<longrightarrow>
     \<not> caches_has (caches (updateCacheForNewVersion e v st)) (PREFIX @ v) \<and>
     CACHE_NAME (updateCacheForNewVersion e v st) = CACHE_NAME st \<and>
     CURRENT_VERSION (updateCacheForNewVersion e v st) = CURRENT_VERSION st \<and>
     caches_delete (PREFIX @ v) (caches (updateCacheForNewVersion e v st)) =
       caches_delete (PREFIX @ v) (caches st) \<and>
     (\<not> caches_has (caches st) (PREFIX @ v) \<longrightarrow>
        caches (updateCacheForNewVersion e v st) = caches st) \<and>
     filter is_post (new_events st (updateCacheForNewVersion e v st)) = []"
proof
  assume h: "open_error e (PREFIX @ v) = None \<and> \<not> gate_passes e v"
  let ?n = "PREFIX @ v"
  let ?st2 = "snd (download_all e ?n v (getAssets e) (open_cache ?n st))"
  from h have u: "updateCacheForNewVersion e v st = delete_cache ?n ?st2"
    by (simp add: update_gate_fails)
  have fr: "CACHE_NAME ?st2 = CACHE_NAME st" "CURRENT_VERSION ?st2 = CURRENT_VERSION st"
    "caches_delete ?n (caches ?st2) = caches_delete ?n (caches st)"
    using download_all_frame [of e ?n v "getAssets e" "open_cache ?n st"] by simp_all
  obtain evs where tr: "trace ?st2 = trace (open_cache ?n st) @ evs" "list_all is_download_event evs"
    using download_all_trace by blast
  have c: "caches (updateCacheForNewVersion e v st) = caches_delete ?n (caches st)"
    by (simp add: u fr)
  have p: "filter is_post (new_events st (updateCacheForNewVersion e v st)) = []"
    using tr download_event_not_post [OF tr(2)] by (simp add: u new_events_def)
  show "\<not> caches_has (caches (updateCacheForNewVersion e v st)) (PREFIX @ v) \<and>
     CACHE_NAME (updateCacheForNewVersion e v st) = CACHE_NAME st \<and>
     CURRENT_VERSION (updateCacheForNewVersion e v st) = CURRENT_VERSION st \<and>
     caches_delete (PREFIX @ v) (caches (updateCacheForNewVersion e v st)) =
       caches_delete (PREFIX @ v) (caches st) \<and>
     (\<not> caches_has (caches st) (PREFIX @ v) \<longrightarrow>
        caches (updateCacheForNewVersion e v st) = caches st) \<and>
     filter is_post (new_events st (updateCacheForNewVersion e v st)) = []"
    using p by (simp add: c caches_delete_absent) (simp add: u fr caches_delete_def)
qed

text \<open>
  Claim C1 at inputs where the code breaks it. With two clients connected, the network down
  and a working storage, an update to \<open>v2\<close> fails the gate and posts nothing to any
  client, neither when it runs on its own nor when an \<open>UPDATE_VERSION\<close> message starts
  it: \<open>CACHE_UPDATE_FAILED\<close> is posted by the \<open>catch\<close> block only. Started by
  \<open>CHECK_VERSION\<close> when only the version probe is answered, the aborted update is followed
  by \<open>UPDATE_AVAILABLE\<close> and by no failure message. And an update to \<open>v1\<close>, the version
  the pointer names, deletes the pre-existing generation \<open>totem-cache-v1\<close> when its gate
  fails, and leaves the pointer naming it.
\<close>

theorem update_gate_abort_is_silent:
  "clients offline_env = [0, 1] \<and>
   open_error offline_env (PREFIX @ ''v2'') = None \<and>
   \<not> gate_passes offline_env ''v2'' \<and>
   filter is_post (trace (updateCacheForNewVersion offline_env ''v2'' v1_state)) = [] \<and>
   filter is_post (trace (onMessage offline_env (UPDATE_VERSION (Some ''v2'') True) v1_state)) = [] \<and>
   clients (probe_only_env ''v2'') = [0, 1] \<and>
   fst (checkForUpdate (probe_only_env ''v2'') v1_state) \<and>
   fetchVersion_result (probe_only_env ''v2'') = Some ''v2'' \<and>
   \<not> gate_passes (probe_only_env ''v2'') ''v2'' \<and>
   filter is_post (new_events v1_state (onMessage (probe_only_env ''v2'') CHECK_VERSION v1_state)) =
     [PostMessage 0 (UPDATE_AVAILABLE ''v2''), PostMessage 1 (UPDATE_AVAILABLE ''v2'')] \<and>
   \<not> gate_passes offline_env ''v1'' \<and>
   CACHE_NAME v1_state = ''totem-cache-v1'' \<and>
   caches_has (caches v1_state) ''totem-cache-v1'' \<and>
   caches (updateCacheForNewVersion offline_env ''v1'' v1_state) = [] \<and>
   CACHE_NAME (updateCacheForNewVersion offline_env ''v1'' v1_state) = ''totem-cache-v1''"
proof -
  have a: "clients offline_env = [0, 1] \<and>
     open_error offline_env (PREFIX @ ''v2'') = None \<and>
     \<not> gate_passes offline_env ''v2'' \<and>
     filter is_post (trace (updateCacheForNewVersion offline_env ''v2'' v1_state)) = [] \<and>
     filter is_post (trace (onMessage offline_env (UPDATE_VERSION (Some ''v2'') True) v1_state)) = []"
    by code_simp
  have c: "fst (checkForUpdate (probe_only_env ''v2'') v1_state)" by code_simp
  have r: "fetchVersion_result (probe_only_env ''v2'') = Some ''v2''" by code_simp
  have o: "open_error (probe_only_env ''v2'') (PREFIX @ ''v2'') = None" by code_simp
  have g: "\<not> gate_passes (probe_only_env ''v2'') ''v2''" by code_simp
  have cl: "clients (probe_only_env ''v2'') = [0, 1]" by code_simp
  have "filter is_post (new_events v1_state (onMessage (probe_only_env ''v2'') CHECK_VERSION v1_state)) =
     map (\<lambda>c. PostMessage c (UPDATE_AVAILABLE (the (fetchVersion_result (probe_only_env ''v2'')))))
       (clients (probe_only_env ''v2''))"
    using c r o g by (intro check_version_after_abort) (simp_all add: truthy_def)
  then have b: "filter is_post (new_events v1_state (onMessage (probe_only_env ''v2'') CHECK_VERSION v1_state)) =
     [PostMessage 0 (UPDATE_AVAILABLE ''v2''), PostMessage 1 (UPDATE_AVAILABLE ''v2'')]"
    by (simp add: r cl)
  have d: "\<not> gate_passes offline_env ''v1'' \<and>
     CACHE_NAME v1_state = ''totem-cache-v1'' \<and>
     caches_has (caches v1_state) ''totem-cache-v1'' \<and>
     caches (updateCacheForNewVersion offline_env ''v1'' v1_state) = [] \<and>
     CACHE_NAME (updateCacheForNewVersion offline_env ''v1'' v1_state) = ''totem-cache-v1''"
    by code_simp
  from a cl c r g b d show ?thesis by blast
qed

text \<open>
  Claim C4, as the code has it. Take an update that opens its generation, passes the
  essential-set gate and runs with no other task in between, on a storage with distinct
  names. Afterwards the pointer names the new generation; exactly one persisted name
  matches the prefix, namely the new name; that generation holds, under the asset's own
  URL, the response of every asset whose download succeeded; and every generation that
  carried the prefix under another name before the update is gone.
\<close>

theorem update_success:
  "open_error e (PREFIX @ v) = None \<and> gate_passes e v \<and> distinct (caches_keys (caches st)) \<longrightarrow>
     CACHE_NAME (updateCacheForNewVersion e v st) = PREFIX @ v \<and>
     CURRENT_VERSION (updateCacheForNewVersion e v st) = Some v \<and>
     filter (prefix PREFIX) (caches_keys (caches (updateCacheForNewVersion e v st))) = [PREFIX @ v] \<and>
     (\<forall>n \<in> set (caches_keys (caches st)).
        prefix PREFIX n \<and> n \<noteq> PREFIX @ v \<longrightarrow>
          \<not> caches_has (caches (updateCacheForNewVersion e v st)) n) \<and>
     (\<forall>a \<in> set (getAssets e).
        asset_ok e (PREFIX @ v) v a \<longrightarrow>
          map_of (the_cache (caches (updateCacheForNewVersion e v st)) (PREFIX @ v)) (absolute e a) =
            Some (the (net e (absolute e (cacheBustUrl a v (now e))))))"
proof
  assume h: "open_error e (PREFIX @ v) = None \<and> gate_passes e v \<and> distinct (caches_keys (caches st))"
  let ?n = "PREFIX @ v"
  let ?ks = "caches_keys (caches_open ?n (caches st))"
  from h have a: "open_error e ?n = None" "gate_passes e v" by simp_all
  have k: "caches_keys (caches (updateCacheForNewVersion e v st)) =
     filter (\<lambda>n. \<not> (prefix PREFIX n \<and> n \<noteq> ?n)) ?ks"
    by (rule update_success_keys [OF a])
  from h have d: "distinct ?ks" "?n \<in> set ?ks" by (simp_all add: caches_keys_open)
  have "filter (prefix PREFIX) (filter (\<lambda>n. \<not> (prefix PREFIX n \<and> n \<noteq> ?n)) ?ks) =
        filter (\<lambda>n. n = ?n) ?ks"
    by (auto intro: filter_cong)
  with d have one: "filter (prefix PREFIX) (caches_keys (caches (updateCacheForNewVersion e v st))) = [?n]"
    by (simp add: k filter_eq_singleton)
  have gone: "\<forall>n \<in> set (caches_keys (caches st)).
        prefix PREFIX n \<and> n \<noteq> ?n \<longrightarrow> \<not> caches_has (caches (updateCacheForNewVersion e v st)) n"
    by (simp add: caches_has_def k)
  have p: "CACHE_NAME (updateCacheForNewVersion e v st) = ?n"
     "CURRENT_VERSION (updateCacheForNewVersion e v st) = Some v"
    by (simp_all add: update_gate_passes [OF a] Let_def)
  have stored: "\<forall>a \<in> set (getAssets e).
        asset_ok e ?n v a \<longrightarrow>
          map_of (the_cache (caches (updateCacheForNewVersion e v st)) ?n) (absolute e a) =
            Some (the (net e (absolute e (cacheBustUrl a v (now e)))))"
    using update_success_stored [OF a] by blast
  from p one gone stored show "CACHE_NAME (updateCacheForNewVersion e v st) = PREFIX @ v \<and>
     CURRENT_VERSION (updateCacheForNewVersion e v st) = Some v \<and>
     filter (prefix PREFIX) (caches_keys (caches (updateCacheForNewVersion e v st))) = [PREFIX @ v] \<and>
     (\<forall>n \<in> set (caches_keys (caches st)).
        prefix PREFIX n \<and> n \<noteq> PREFIX @ v \<longrightarrow>
          \<not> caches_has (caches (updateCacheForNewVersion e v st)) n) \<and>
     (\<forall>a \<in> set (getAssets e).
        asset_ok e (PREFIX @ v) v a \<longrightarrow>
          map_of (the_cache (caches (updateCacheForNewVersion e v st)) (PREFIX @ v)) (absolute e a) =
            Some (the (net e (absolute e (cacheBustUrl a v (now e))))))"
    by blast
qed

theorem update_success_witness:
  "open_error (online_env ''v2'') (PREFIX @ ''v2'') = None \<and>
   gate_passes (online_env ''v2'') ''v2'' \<and>
   distinct (caches_keys (caches v1_state)) \<and>
   ''totem-cache-v1'' \<in> set (caches_keys (caches v1_state)) \<and>
   prefix PREFIX ''totem-cache-v1'' \<and>
   ''/style.css'' \<in> set (getAssets (online_env ''v2'')) \<and>
   asset_ok (online_env ''v2'') (PREFIX @ ''v2'') ''v2'' ''/style.css'' \<and>
   CACHE_NAME (updateCacheForNewVersion (online_env ''v2'') ''v2'' v1_state) = ''totem-cache-v2'' \<and>
   CURRENT_VERSION (updateCacheForNewVersion (online_env ''v2'') ''v2'' v1_state) = Some ''v2'' \<and>
   filter (prefix PREFIX) (caches_keys (caches (updateCacheForNewVersion (online_env ''v2'') ''v2'' v1_state)))
     = [''totem-cache-v2''] \<and>
   \<not> caches_has (caches (updateCacheForNewVersion (online_env ''v2'') ''v2'' v1_state)) ''totem-cache-v1'' \<and>
   map_of (the_cache (caches (updateCacheForNewVersion (online_env ''v2'') ''v2'' v1_state)) ''totem-cache-v2'')
     ''https://kiosk.example/style.css'' = Some (page ''fresh'')"
proof -
  have o: "open_error (online_env ''v2'') (PREFIX @ ''v2'') = None" by code_simp
  have g: "gate_passes (online_env ''v2'') ''v2''" by code_simp
  have d: "distinct (caches_keys (caches v1_state))" by code_simp
  have m: "''totem-cache-v1'' \<in> set (caches_keys (caches v1_state))" by code_simp
  have p: "prefix PREFIX ''totem-cache-v1''" by code_simp
  have ne: "''totem-cache-v1'' \<noteq> PREFIX @ ''v2''" by code_simp
  have n2: "PREFIX @ ''v2'' = ''totem-cache-v2''" by code_simp
  have am: "''/style.css'' \<in> set (getAssets (online_env ''v2''))" by code_simp
  have ao: "asset_ok (online_env ''v2'') (PREFIX @ ''v2'') ''v2'' ''/style.css''" by code_simp
  have au: "absolute (online_env ''v2'') ''/style.css'' = ''https://kiosk.example/style.css''"
    by code_simp
  have ar: "the (net (online_env ''v2'')
               (absolute (online_env ''v2'') (cacheBustUrl ''/style.css'' ''v2'' (now (online_env ''v2''))))) =
            page ''fresh''" by code_simp
  from o g d update_success [of "online_env ''v2''" "''v2''" v1_state]
  have r: "CACHE_NAME (updateCacheForNewVersion (online_env ''v2'') ''v2'' v1_state) = PREFIX @ ''v2'' \<and>
     CURRENT_VERSION (updateCacheForNewVersion (online_env ''v2'') ''v2'' v1_state) = Some ''v2'' \<and>
     filter (prefix PREFIX) (caches_keys (caches (updateCacheForNewVersion (online_env ''v2'') ''v2'' v1_state))) = [PREFIX @ ''v2''] \<and>
     (\<forall>n \<in> set (caches_keys (caches v1_state)).
        prefix PREFIX n \<and> n \<noteq> PREFIX @ ''v2'' \<longrightarrow>
          \<not> caches_has (caches (updateCacheForNewVersion (online_env ''v2'') ''v2'' v1_state)) n) \<and>
     (\<forall>a \<in> set (getAssets (online_env ''v2'')).
        asset_ok (online_env ''v2'') (PREFIX @ ''v2'') ''v2'' a \<longrightarrow>
          map_of (the_cache (caches (updateCacheForNewVersion (online_env ''v2'') ''v2'' v1_state)) (PREFIX @ ''v2''))
            (absolute (online_env ''v2'') a) =
            Some (the (net (online_env ''v2'')
               (absolute (online_env ''v2'') (cacheBustUrl a ''v2'' (now (online_env ''v2'')))))))"
    by blast
  with m p ne
  have gone: "\<not> caches_has (caches (updateCacheForNewVersion (online_env ''v2'') ''v2'' v1_state)) ''totem-cache-v1''"
    by blast
  from r am ao
  have "map_of (the_cache (caches (updateCacheForNewVersion (online_env ''v2'') ''v2'' v1_state)) (PREFIX @ ''v2''))
            (absolute (online_env ''v2'') ''/style.css'') =
            Some (the (net (online_env ''v2'')
               (absolute (online_env ''v2'') (cacheBustUrl ''/style.css'' ''v2'' (now (online_env ''v2''))))))"
    by blast
  then have st: "map_of (the_cache (caches (updateCacheForNewVersion (online_env ''v2'') ''v2'' v1_state)) ''totem-cache-v2'')
     ''https://kiosk.example/style.css'' = Some (page ''fresh'')"
    by (simp only: au ar n2)
  from r gone st o g d m p am ao show ?thesis by (simp only: n2) simp
qed

theorem update_success_counterexample:
  "open_error (stylesheet_down_env ''v1'') (PREFIX @ ''v1'') = None \<and>
   gate_passes (stylesheet_down_env ''v1'') ''v1'' \<and>
   prefix PREFIX ''totem-cache-v1'' \<and>
   caches_has (caches v1_state) ''totem-cache-v1'' \<and>
   caches_has (caches (updateCacheForNewVersion (stylesheet_down_env ''v1'') ''v1'' v1_state))
     ''totem-cache-v1'' \<and>
   fst race_A3 \<and> fst race_B3 \<and>
   CACHE_NAME race_B4 = ''totem-cache-v3'' \<and>
   filter (prefix PREFIX) (caches_keys (caches race_B4)) = []"
proof -
  have o: "open_error (stylesheet_down_env ''v1'') (PREFIX @ ''v1'') = None" by code_simp
  have g: "gate_passes (stylesheet_down_env ''v1'') ''v1''" by code_simp
  have b: "prefix PREFIX ''totem-cache-v1'' \<and> caches_has (caches v1_state) ''totem-cache-v1''"
    by code_simp
  have k: "''totem-cache-v1'' \<in> set
      (filter (\<lambda>n. \<not> (prefix PREFIX n \<and> n \<noteq> PREFIX @ ''v1''))
         (caches_keys (caches_open (PREFIX @ ''v1'') (caches v1_state))))"
    by code_simp
  have a: "caches_has (caches (updateCacheForNewVersion (stylesheet_down_env ''v1'') ''v1'' v1_state))
     ''totem-cache-v1''"
    using k by (simp only: caches_has_def update_success_keys [OF o g])
  have r: "fst race_A3 \<and> fst race_B3 \<and> CACHE_NAME race_B4 = ''totem-cache-v3'' \<and>
      filter (prefix PREFIX) (caches_keys (caches race_B4)) = []"
    by code_simp
  from o g b a r show ?thesis by blast
qed

text \<open>
  Claim C7, as the code has it. In an update that runs with no other task in between, the
  effects come in this order: opening and filling the new generation, with no deletion; the
  assignment of the pointer to the new name; the deletions; the notifications. Segment by
  segment, whatever other tasks do at the suspension points: opening, downloading and
  notifying delete nothing; a passed gate assigns the pointer and deletes nothing; all
  deletions of a successful update are made by the segment after \<open>caches.keys()\<close>, which
  follows the pointer assignment, and the name of the update's own generation is never
  among them. The generation the pointer names when the deletions are made is therefore
  spared when the pointer still names the update's own generation.
\<close>

theorem update_deletes_after_pointer:
  "(open_error e (PREFIX @ v) = None \<and> gate_passes e v \<longrightarrow>
     (\<exists>pre olds.
        trace (updateCacheForNewVersion e v st) =
          trace st @ pre @ [SetPointer (PREFIX @ v)] @ map CacheDelete olds @
          map (\<lambda>c. PostMessage c (CACHE_UPDATED v)) (clients e) \<and>
        list_all (\<lambda>ev. \<not> is_delete ev) pre \<and>
        PREFIX @ v \<notin> set olds \<and>
        olds = filter (\<lambda>name. prefix PREFIX name \<and> name \<noteq> PREFIX @ v)
                 (caches_keys (caches_open (PREFIX @ v) (caches st)))) \<and>
     CACHE_NAME (updateCacheForNewVersion e v st) = PREFIX @ v) \<and>
   (\<forall>so'. update_open e v so = Inr so' \<longrightarrow> list_all (\<lambda>ev. \<not> is_delete ev) (new_events so so')) \<and>
   list_all (\<lambda>ev. \<not> is_delete ev) (new_events sd (snd (update_download e v sd))) \<and>
   (hasEssential (getAssets e) results \<longrightarrow>
      fst (update_gate e v results sg) \<and>
      CACHE_NAME (snd (update_gate e v results sg)) = PREFIX @ v \<and>
      new_events sg (snd (update_gate e v results sg)) = [SetPointer (PREFIX @ v)]) \<and>
   new_events sc (update_cleanup e v sc) =
     map CacheDelete (filter (\<lambda>name. prefix PREFIX name \<and> name \<noteq> PREFIX @ v)
                        (caches_keys (caches sc))) \<and>
   CacheDelete (PREFIX @ v) \<notin> set (new_events sc (update_cleanup e v sc)) \<and>
   (CACHE_NAME sc = PREFIX @ v \<longrightarrow>
      CacheDelete (CACHE_NAME sc) \<notin> set (new_events sc (update_cleanup e v sc))) \<and>
   list_all (\<lambda>ev. \<not> is_delete ev) (new_events sn (update_notify e v sn))"
proof -
  let ?n = "PREFIX @ v"
  have iso: "(\<exists>pre olds.
        trace (updateCacheForNewVersion e v st) =
          trace st @ pre @ [SetPointer ?n] @ map CacheDelete olds @
          map (\<lambda>c. PostMessage c (CACHE_UPDATED v)) (clients e) \<and>
        list_all (\<lambda>ev. \<not> is_delete ev) pre \<and>
        ?n \<notin> set olds \<and>
        olds = filter (\<lambda>name. prefix PREFIX name \<and> name \<noteq> ?n)
                 (caches_keys (caches_open ?n (caches st)))) \<and>
     CACHE_NAME (updateCacheForNewVersion e v st) = ?n"
    if h: "open_error e ?n = None \<and> gate_passes e v"
  proof -
    let ?st2 = "snd (download_all e ?n v (getAssets e) (open_cache ?n st))"
    let ?olds = "filter (\<lambda>name. prefix PREFIX name \<and> name \<noteq> ?n) (caches_keys (caches_open ?n (caches st)))"
    from h have a: "open_error e ?n = None" "gate_passes e v" by simp_all
    have k: "caches_keys (caches ?st2) = caches_keys (caches_open ?n (caches st))"
      using download_all_frame [of e ?n v "getAssets e" "open_cache ?n st"] by simp
    obtain evs where tr: "trace ?st2 = trace (open_cache ?n st) @ evs" "list_all is_download_event evs"
      using download_all_trace by blast
    have t: "trace (updateCacheForNewVersion e v st) =
          trace st @ (CacheOpen ?n # evs) @ [SetPointer ?n] @ map CacheDelete ?olds @
          map (\<lambda>c. PostMessage c (CACHE_UPDATED v)) (clients e)"
      by (simp add: update_gate_passes [OF a] Let_def k tr)
    have nd: "list_all (\<lambda>ev. \<not> is_delete ev) (CacheOpen ?n # evs)"
      using download_event_not_delete [OF tr(2)] by simp
    have nn: "?n \<notin> set ?olds" by simp
    have p: "CACHE_NAME (updateCacheForNewVersion e v st) = ?n"
      by (simp add: update_gate_passes [OF a] Let_def)
    from t nd nn p show ?thesis by blast
  qed
  have op: "list_all (\<lambda>ev. \<not> is_delete ev) (new_events so so')"
    if "update_open e v so = Inr so'" for so'
    using that by (auto simp: update_open_def new_events_def split: option.splits)
  have dl: "list_all (\<lambda>ev. \<not> is_delete ev) (new_events sd (snd (update_download e v sd)))"
  proof -
    obtain evs where tr: "trace (snd (download_all e ?n v (getAssets e) sd)) = trace sd @ evs"
      "list_all is_download_event evs"
      using download_all_trace by blast
    with download_event_not_delete [OF tr(2)] show ?thesis
      by (simp add: update_download_def new_events_def)
  qed
  have gt: "fst (update_gate e v results sg) \<and>
      CACHE_NAME (snd (update_gate e v results sg)) = ?n \<and>
      new_events sg (snd (update_gate e v results sg)) = [SetPointer ?n]"
    if "hasEssential (getAssets e) results"
    using that by (simp add: update_gate_def new_events_def)
  have cl: "new_events sc (update_cleanup e v sc) =
     map CacheDelete (filter (\<lambda>name. prefix PREFIX name \<and> name \<noteq> ?n) (caches_keys (caches sc)))"
    by (simp add: update_cleanup_def new_events_def Let_def)
  have cn: "CacheDelete ?n \<notin> set (new_events sc (update_cleanup e v sc))"
    by (auto simp: cl)
  have nt: "list_all (\<lambda>ev. \<not> is_delete ev) (new_events sn (update_notify e v sn))"
    by (simp add: update_notify_def new_events_def list_all_iff)
  have cp: "CACHE_NAME sc = ?n \<longrightarrow>
      CacheDelete (CACHE_NAME sc) \<notin> set (new_events sc (update_cleanup e v sc))"
    using cn by simp
  from iso have iso': "open_error e ?n = None \<and> gate_passes e v \<longrightarrow>
     (\<exists>pre olds.
        trace (updateCacheForNewVersion e v st) =
          trace st @ pre @ [SetPointer ?n] @ map CacheDelete olds @
          map (\<lambda>c. PostMessage c (CACHE_UPDATED v)) (clients e) \<and>
        list_all (\<lambda>ev. \<not> is_delete ev) pre \<and>
        ?n \<notin> set olds \<and>
        olds = filter (\<lambda>name. prefix PREFIX name \<and> name \<noteq> ?n)
                 (caches_keys (caches_open ?n (caches st)))) \<and>
     CACHE_NAME (updateCacheForNewVersion e v st) = ?n"
    by (rule impI)
  from op have op': "\<forall>so'. update_open e v so = Inr so' \<longrightarrow>
      list_all (\<lambda>ev. \<not> is_delete ev) (new_events so so')"
    by blast
  from gt have gt': "hasEssential (getAssets e) results \<longrightarrow>
      fst (update_gate e v results sg) \<and>
      CACHE_NAME (snd (update_gate e v results sg)) = ?n \<and>
      new_events sg (snd (update_gate e v results sg)) = [SetPointer ?n]"
    by (rule impI)
  show ?thesis
    by (intro conjI) (fact iso' op' dl gt' cl cn cp nt)+
qed

theorem update_deletes_after_pointer_witness:
  "open_error (online_env ''v2'') (PREFIX @ ''v2'') = None \<and>
   gate_passes (online_env ''v2'') ''v2'' \<and>
   (\<exists>pre. trace (updateCacheForNewVersion (online_env ''v2'') ''v2'' v1_state) =
            trace v1_state @ pre @
            [SetPointer ''totem-cache-v2'', CacheDelete ''totem-cache-v1'',
             PostMessage 0 (CACHE_UPDATED ''v2''), PostMessage 1 (CACHE_UPDATED ''v2'')] \<and>
          list_all (\<lambda>ev. \<not> is_delete ev) pre) \<and>
   CACHE_NAME (updateCacheForNewVersion (online_env ''v2'') ''v2'' v1_state) = ''totem-cache-v2'' \<and>
   update_open (online_env ''v2'') ''v2'' v1_state = Inr (open_cache ''totem-cache-v2'' v1_state) \<and>
   list_all (\<lambda>ev. \<not> is_delete ev) (new_events v1_state (open_cache ''totem-cache-v2'' v1_state)) \<and>
   hasEssential (getAssets (online_env ''v2'')) [(''/index.html'', True)] \<and>
   fst (update_gate (online_env ''v2'') ''v2'' [(''/index.html'', True)] v1_state) \<and>
   new_events v1_state (snd (update_gate (online_env ''v2'') ''v2'' [(''/index.html'', True)] v1_state)) =
     [SetPointer ''totem-cache-v2''] \<and>
   CACHE_NAME flipped_state = PREFIX @ ''v2'' \<and>
   caches_keys (caches flipped_state) = [''totem-cache-v1'', ''totem-cache-v2''] \<and>
   new_events flipped_state (update_cleanup (online_env ''v2'') ''v2'' flipped_state) =
     [CacheDelete ''totem-cache-v1''] \<and>
   CacheDelete (CACHE_NAME flipped_state)
     \<notin> set (new_events flipped_state (update_cleanup (online_env ''v2'') ''v2'' flipped_state))"
proof -
  have o: "open_error (online_env ''v2'') (PREFIX @ ''v2'') = None" by code_simp
  have g: "gate_passes (online_env ''v2'') ''v2''" by code_simp
  have n2: "PREFIX @ ''v2'' = ''totem-cache-v2''" by code_simp
  have ol: "filter (\<lambda>name. prefix PREFIX name \<and> name \<noteq> PREFIX @ ''v2'')
                 (caches_keys (caches_open (PREFIX @ ''v2'') (caches v1_state))) = [''totem-cache-v1'']"
    by code_simp
  have cl: "clients (online_env ''v2'') = [0, 1]" by code_simp
  have uo: "update_open (online_env ''v2'') ''v2'' v1_state = Inr (open_cache ''totem-cache-v2'' v1_state)"
    by code_simp
  have he: "hasEssential (getAssets (online_env ''v2'')) [(''/index.html'', True)]" by code_simp
  have fp: "CACHE_NAME flipped_state = PREFIX @ ''v2''" by code_simp
  have fk: "caches_keys (caches flipped_state) = [''totem-cache-v1'', ''totem-cache-v2'']" by code_simp
  have fo: "filter (\<lambda>name. prefix PREFIX name \<and> name \<noteq> PREFIX @ ''v2'')
                 (caches_keys (caches flipped_state)) = [''totem-cache-v1'']"
    by code_simp
  note T = update_deletes_after_pointer [where e = "online_env ''v2''" and v = "''v2''"
      and st = v1_state and so = v1_state and results = "[(''/index.html'', True)]"
      and sg = v1_state and sc = flipped_state]
  from o g T
  obtain pre olds where
    t: "trace (updateCacheForNewVersion (online_env ''v2'') ''v2'' v1_state) =
          trace v1_state @ pre @ [SetPointer (PREFIX @ ''v2'')] @ map CacheDelete olds @
          map (\<lambda>c. PostMessage c (CACHE_UPDATED ''v2'')) (clients (online_env ''v2''))"
    and nd: "list_all (\<lambda>ev. \<not> is_delete ev) pre"
    and ol': "olds = filter (\<lambda>name. prefix PREFIX name \<and> name \<noteq> PREFIX @ ''v2'')
                 (caches_keys (caches_open (PREFIX @ ''v2'') (caches v1_state)))"
    and p: "CACHE_NAME (updateCacheForNewVersion (online_env ''v2'') ''v2'' v1_state) = PREFIX @ ''v2''"
    by blast
  from ol ol' have ol2: "olds = [''totem-cache-v1'']" by simp
  from t have "trace (updateCacheForNewVersion (online_env ''v2'') ''v2'' v1_state) =
            trace v1_state @ pre @
            [SetPointer ''totem-cache-v2'', CacheDelete ''totem-cache-v1'',
             PostMessage 0 (CACHE_UPDATED ''v2''), PostMessage 1 (CACHE_UPDATED ''v2'')]"
    by (simp only: ol2 cl n2) simp
  with nd have a: "\<exists>pre. trace (updateCacheForNewVersion (online_env ''v2'') ''v2'' v1_state) =
            trace v1_state @ pre @
            [SetPointer ''totem-cache-v2'', CacheDelete ''totem-cache-v1'',
             PostMessage 0 (CACHE_UPDATED ''v2''), PostMessage 1 (CACHE_UPDATED ''v2'')] \<and>
          list_all (\<lambda>ev. \<not> is_delete ev) pre"
    by blast
  from p have p': "CACHE_NAME (updateCacheForNewVersion (online_env ''v2'') ''v2'' v1_state) = ''totem-cache-v2''"
    by (simp only: n2)
  from uo T have b: "list_all (\<lambda>ev. \<not> is_delete ev) (new_events v1_state (open_cache ''totem-cache-v2'' v1_state))"
    by blast
  from he T have c: "fst (update_gate (online_env ''v2'') ''v2'' [(''/index.html'', True)] v1_state) \<and>
      new_events v1_state (snd (update_gate (online_env ''v2'') ''v2'' [(''/index.html'', True)] v1_state)) =
        [SetPointer (PREFIX @ ''v2'')]"
    by blast
  from T have d: "new_events flipped_state (update_cleanup (online_env ''v2'') ''v2'' flipped_state) =
     map CacheDelete (filter (\<lambda>name. prefix PREFIX name \<and> name \<noteq> PREFIX @ ''v2'')
                        (caches_keys (caches flipped_state)))"
    by blast
  then have d': "new_events flipped_state (update_cleanup (online_env ''v2'') ''v2'' flipped_state) =
     [CacheDelete ''totem-cache-v1'']"
    by (simp only: fo) simp
  from fp T have f: "CacheDelete (CACHE_NAME flipped_state)
     \<notin> set (new_events flipped_state (update_cleanup (online_env ''v2'') ''v2'' flipped_state))"
    by blast
  from c have c': "fst (update_gate (online_env ''v2'') ''v2'' [(''/index.html'', True)] v1_state) \<and>
      new_events v1_state (snd (update_gate (online_env ''v2'') ''v2'' [(''/index.html'', True)] v1_state)) =
        [SetPointer ''totem-cache-v2'']"
    by (simp only: n2)
  from o g a p' uo b he c' fp fk d' f show ?thesis by blast
qed

theorem update_deletes_after_pointer_counterexample:
  "hasEssential (getAssets descriptor_only_env) (fst race_A2) \<and>
   fst race_A3 \<and>
   CACHE_NAME (snd race_A3) = ''totem-cache-v2'' \<and>
   fst race_B3 \<and>
   CACHE_NAME (snd race_B3) = ''totem-cache-v3'' \<and>
   new_events (snd race_B3) race_A4 =
     [CacheDelete ''totem-cache-v1'', CacheDelete ''totem-cache-v3''] \<and>
   CACHE_NAME race_A4 = ''totem-cache-v3'' \<and>
   caches_keys (caches race_A4) = [''totem-cache-v2'']"
  by code_simp

text \<open>
  Claim C9. For an \<open>UPDATE_VERSION\<close> message with a truthy version and a reply port, the
  handler posts \<open>CACHE_UPDATE_COMPLETE\<close> with that version on the port after
  \<open>updateCacheForNewVersion\<close>, whatever the update did. When the gate failed, and when
  \<open>caches.open\<close> rejected and \<open>CACHE_UPDATE_FAILED\<close> went to every client, the pointer
  is what it was before the message, so the acknowledgment does not tell that the pointer
  names the supplied version.
\<close>

theorem update_version_always_acknowledged:
  "truthy v \<longrightarrow>
     trace (onMessage e (UPDATE_VERSION v True) st) =
       trace (updateCacheForNewVersion e (the v) st) @ [PortReply (CACHE_UPDATE_COMPLETE (the v))] \<and>
     (open_error e (PREFIX @ the v) = None \<and> \<not> gate_passes e (the v) \<longrightarrow>
        CACHE_NAME (onMessage e (UPDATE_VERSION v True) st) = CACHE_NAME st \<and>
        CURRENT_VERSION (onMessage e (UPDATE_VERSION v True) st) = CURRENT_VERSION st) \<and>
     (\<forall>msg. open_error e (PREFIX @ the v) = Some msg \<longrightarrow>
        CACHE_NAME (onMessage e (UPDATE_VERSION v True) st) = CACHE_NAME st \<and>
        CURRENT_VERSION (onMessage e (UPDATE_VERSION v True) st) = CURRENT_VERSION st \<and>
        trace (onMessage e (UPDATE_VERSION v True) st) =
          trace st @ map (\<lambda>c. PostMessage c (CACHE_UPDATE_FAILED msg)) (clients e) @
          [PortReply (CACHE_UPDATE_COMPLETE (the v))])"
proof
  assume t: "truthy v"
  have m: "onMessage e (UPDATE_VERSION v True) st =
      emit (PortReply (CACHE_UPDATE_COMPLETE (the v))) (updateCacheForNewVersion e (the v) st)"
    using t by (simp add: onMessage_def Let_def)
  have c1: "trace (onMessage e (UPDATE_VERSION v True) st) =
       trace (updateCacheForNewVersion e (the v) st) @ [PortReply (CACHE_UPDATE_COMPLETE (the v))]"
    by (simp add: m emit_def)
  have c2: "CACHE_NAME (onMessage e (UPDATE_VERSION v True) st) = CACHE_NAME st \<and>
        CURRENT_VERSION (onMessage e (UPDATE_VERSION v True) st) = CURRENT_VERSION st"
    if "open_error e (PREFIX @ the v) = None \<and> \<not> gate_passes e (the v)"
    using that update_gate_fails_pointer [of e "the v" st] by (simp add: m emit_def)
  have c3: "CACHE_NAME (onMessage e (UPDATE_VERSION v True) st) = CACHE_NAME st \<and>
        CURRENT_VERSION (onMessage e (UPDATE_VERSION v True) st) = CURRENT_VERSION st \<and>
        trace (onMessage e (UPDATE_VERSION v True) st) =
          trace st @ map (\<lambda>c. PostMessage c (CACHE_UPDATE_FAILED msg)) (clients e) @
          [PortReply (CACHE_UPDATE_COMPLETE (the v))]"
    if "open_error e (PREFIX @ the v) = Some msg" for msg
    using that by (simp add: m emit_def update_open_fails)
  from c1 c2 c3 show "trace (onMessage e (UPDATE_VERSION v True) st) =
       trace (updateCacheForNewVersion e (the v) st) @ [PortReply (CACHE_UPDATE_COMPLETE (the v))] \<and>
     (open_error e (PREFIX @ the v) = None \<and> \<not> gate_passes e (the v) \<longrightarrow>
        CACHE_NAME (onMessage e (UPDATE_VERSION v True) st) = CACHE_NAME st \<and>
        CURRENT_VERSION (onMessage e (UPDATE_VERSION v True) st) = CURRENT_VERSION st) \<and>
     (\<forall>msg. open_error e (PREFIX @ the v) = Some msg \<longrightarrow>
        CACHE_NAME (onMessage e (UPDATE_VERSION v True) st) = CACHE_NAME st \<and>
        CURRENT_VERSION (onMessage e (UPDATE_VERSION v True) st) = CURRENT_VERSION st \<and>
        trace (onMessage e (UPDATE_VERSION v True) st) =
          trace st @ map (\<lambda>c. PostMessage c (CACHE_UPDATE_FAILED msg)) (clients e) @
          [PortReply (CACHE_UPDATE_COMPLETE (the v))])"
    by blast
qed

theorem update_version_always_acknowledged_witness:
  "truthy (Some ''v2'') \<and>
   open_error offline_env (PREFIX @ ''v2'') = None \<and>
   \<not> gate_passes offline_env ''v2'' \<and>
   trace (onMessage offline_env (UPDATE_VERSION (Some ''v2'') True) v1_state) =
     trace (updateCacheForNewVersion offline_env ''v2'' v1_state) @
     [PortReply (CACHE_UPDATE_COMPLETE ''v2'')] \<and>
   CACHE_NAME (onMessage offline_env (UPDATE_VERSION (Some ''v2'') True) v1_state) = ''totem-cache-v1'' \<and>
   CURRENT_VERSION (onMessage offline_env (UPDATE_VERSION (Some ''v2'') True) v1_state) = Some ''v1'' \<and>
   open_error broken_storage_env (PREFIX @ ''v2'') = Some ''storage unavailable'' \<and>
   CACHE_NAME (onMessage broken_storage_env (UPDATE_VERSION (Some ''v2'') True) v1_state) = ''totem-cache-v1'' \<and>
   trace (onMessage broken_storage_env (UPDATE_VERSION (Some ''v2'') True) v1_state) =
     [PostMessage 0 (CACHE_UPDATE_FAILED ''storage unavailable''),
      PostMessage 1 (CACHE_UPDATE_FAILED ''storage unavailable''),
      PortReply (CACHE_UPDATE_COMPLETE ''v2'')]"
proof -
  have t: "truthy (Some ''v2'')" by code_simp
  have o: "open_error offline_env (PREFIX @ ''v2'') = None" by code_simp
  have g: "\<not> gate_passes offline_env ''v2''" by code_simp
  have b: "open_error broken_storage_env (PREFIX @ ''v2'') = Some ''storage unavailable''" by code_simp
  have n: "CACHE_NAME v1_state = ''totem-cache-v1''" by code_simp
  have c: "CURRENT_VERSION v1_state = Some ''v1''" by code_simp
  have tr: "trace v1_state = []" by code_simp
  have cl: "clients broken_storage_env = [0, 1]" by code_simp
  from t o g update_version_always_acknowledged [of "Some ''v2''" offline_env v1_state]
  have r1: "trace (onMessage offline_env (UPDATE_VERSION (Some ''v2'') True) v1_state) =
     trace (updateCacheForNewVersion offline_env ''v2'' v1_state) @
     [PortReply (CACHE_UPDATE_COMPLETE ''v2'')] \<and>
     CACHE_NAME (onMessage offline_env (UPDATE_VERSION (Some ''v2'') True) v1_state) = ''totem-cache-v1'' \<and>
     CURRENT_VERSION (onMessage offline_env (UPDATE_VERSION (Some ''v2'') True) v1_state) = Some ''v1''"
    by (simp add: n c)
  from t update_version_always_acknowledged [of "Some ''v2''" broken_storage_env v1_state]
  have "\<forall>msg. open_error broken_storage_env (PREFIX @ the (Some ''v2'')) = Some msg \<longrightarrow>
        CACHE_NAME (onMessage broken_storage_env (UPDATE_VERSION (Some ''v2'') True) v1_state) =
          CACHE_NAME v1_state \<and>
        CURRENT_VERSION (onMessage broken_storage_env (UPDATE_VERSION (Some ''v2'') True) v1_state) =
          CURRENT_VERSION v1_state \<and>
        trace (onMessage broken_storage_env (UPDATE_VERSION (Some ''v2'') True) v1_state) =
          trace v1_state @ map (\<lambda>c. PostMessage c (CACHE_UPDATE_FAILED msg)) (clients broken_storage_env) @
          [PortReply (CACHE_UPDATE_COMPLETE (the (Some ''v2'')))]"
    by blast
  with b have r2: "CACHE_NAME (onMessage broken_storage_env (UPDATE_VERSION (Some ''v2'') True) v1_state) = ''totem-cache-v1'' \<and>
   trace (onMessage broken_storage_env (UPDATE_VERSION (Some ''v2'') True) v1_state) =
     [PostMessage 0 (CACHE_UPDATE_FAILED ''storage unavailable''),
      PostMessage 1 (CACHE_UPDATE_FAILED ''storage unavailable''),
      PortReply (CACHE_UPDATE_COMPLETE ''v2'')]"
    by (simp add: n tr cl)
  from t o g b r1 r2 show ?thesis by blast
qed

section \<open>Properties of the older update\<close>

lemma legacy_asset_frame:
  "CACHE_NAME (legacy_asset e n st a) = CACHE_NAME st \<and>
   caches_keys (caches (legacy_asset e n st a)) = caches_keys (caches st)"
  by (simp add: legacy_asset_def emit_def Let_def split: option.splits)

lemma caches_keys_delete: "caches_keys (caches_delete n cs) = filter (\<lambda>k. k \<noteq> n) (caches_keys cs)"
  by (simp add: caches_delete_def caches_keys_def filter_map comp_def)

text \<open>
  The older \<open>updateCacheForNewVersion\<close> deletes the generation the pointer named before
  the update and nothing else.
\<close>

lemma legacy_update_effect:
  assumes "open_error e (PREFIX @ v) = None"
  shows "CACHE_NAME (legacy_updateCacheForNewVersion e v st) = PREFIX @ v \<and>
         caches_keys (caches (legacy_updateCacheForNewVersion e v st)) =
           filter (\<lambda>k. k \<noteq> CACHE_NAME st) (caches_keys (caches_open (PREFIX @ v) (caches st)))"
  using assms
  by (simp add: legacy_updateCacheForNewVersion_def Let_def caches_keys_delete legacy_asset_frame)

text \<open>
  So a prefixed generation that the pointer did not name survives it, and an update to the
  version the pointer already names deletes the generation it has just filled.
\<close>

lemma legacy_update_examples:
  "caches_keys (caches (legacy_updateCacheForNewVersion (online_env ''v2'') ''v2''
       (v1_state\<lparr>CACHE_NAME := ''totem-cache-v3''\<rparr>))) = [''totem-cache-v1'', ''totem-cache-v2''] \<and>
   caches_keys (caches (legacy_updateCacheForNewVersion (online_env ''v1'') ''v1'' v1_state)) = []"
proof -
  have o: "open_error (online_env ''v2'') (PREFIX @ ''v2'') = None"
    "open_error (online_env ''v1'') (PREFIX @ ''v1'') = None" by code_simp+
  have a: "filter (\<lambda>k. k \<noteq> CACHE_NAME (v1_state\<lparr>CACHE_NAME := ''totem-cache-v3''\<rparr>))
        (caches_keys (caches_open (PREFIX @ ''v2'') (caches (v1_state\<lparr>CACHE_NAME := ''totem-cache-v3''\<rparr>)))) =
       [''totem-cache-v1'', ''totem-cache-v2'']" by code_simp
  have b: "filter (\<lambda>k. k \<noteq> CACHE_NAME v1_state)
        (caches_keys (caches_open (PREFIX @ ''v1'') (caches v1_state))) = []" by code_simp
  from legacy_update_effect [OF o(1)] legacy_update_effect [OF o(2)] a b show ?thesis by simp
qed

section \<open>Properties of serving\<close>

lemma serve_version_cases:
  "(net e (url req) = None \<longrightarrow>
      fst (serve_version e req st) =
        Responded (case caches_match (caches st) (url req) of Some c \<Rightarrow> c | None \<Rightarrow> offline_response)) \<and>
   (\<forall>r. net e (url req) = Some r \<and>
        (\<not> ok r \<or> (open_error e (CACHE_NAME st) = None \<and> \<not> put_fails e (CACHE_NAME st) (url req))) \<longrightarrow>
      fst (serve_version e req st) = Responded r)"
  by (auto simp: serve_version_def version_fallback_def emit_def Let_def split: option.splits)

lemma caches_match_in_first:
  "caches_match_in cs u = Some (g, r) \<Longrightarrow>
   \<exists>pre c post. cs = pre @ (g, c) # post \<and> map_of c u = Some r \<and>
                list_all (\<lambda>p. map_of (snd p) u = None) pre"
proof (induction cs)
  case Nil
  then show ?case by simp
next
  case (Cons x cs)
  obtain n c where x: "x = (n, c)" by (cases x)
  show ?case
  proof (cases "map_of c u")
    case None
    with Cons x obtain pre c' post where
      "cs = pre @ (g, c') # post" "map_of c' u = Some r" "list_all (\<lambda>p. map_of (snd p) u = None) pre"
      by auto
    with None x have "x # cs = (x # pre) @ (g, c') # post \<and> map_of c' u = Some r \<and>
        list_all (\<lambda>p. map_of (snd p) u = None) (x # pre)"
      by simp
    then show ?thesis by blast
  next
    case (Some r')
    with Cons.prems x have "x # cs = [] @ (g, c) # cs \<and> map_of c u = Some r \<and>
        list_all (\<lambda>p. map_of (snd p) u = None) []"
      by simp
    then show ?thesis by blast
  qed
qed

lemma cache_put_lookup [simp]: "map_of (cache_put u r c) u = Some r"
  by (induction c) auto

lemma the_cache_put_open:
  "map_of (the_cache (caches_put n u r (caches_open n cs)) n) u = Some r"
proof (induction cs)
  case Nil
  show ?case by (simp add: caches_open_def caches_has_def caches_keys_def caches_put_def the_cache_def)
next
  case (Cons x cs)
  then show ?case
    by (cases x) (auto simp: caches_open_def caches_has_def caches_keys_def caches_put_def the_cache_def
        split: if_splits)
qed

lemma store_current_frame:
  "CACHE_NAME (store_current e req r st) = CACHE_NAME st \<and>
   caches_delete (CACHE_NAME st) (caches (store_current e req r st)) =
     caches_delete (CACHE_NAME st) (caches st) \<and>
   list_all (\<lambda>ev. put_target ev \<in> {None, Some (CACHE_NAME st)})
     (new_events st (store_current e req r st))"
  by (simp add: store_current_def new_events_def emit_def Let_def split: option.splits)

text \<open>
  Claim C5 at an input where it fails. The client asks for the version descriptor, the
  network answers with an ok response that carries version \<open>v2\<close>, and \<open>cache.put\<close>
  rejects. The handler's \<open>catch\<close> then answers with the stored copy (version \<open>v1\<close>),
  and with the 503 response when nothing is stored, instead of the network response.
  With a storage that accepts the write, and for every answer that is not ok,
  \<open>serve_version_cases\<close> shows the network response returned, and the stored copy or the
  503 response only after a rejected fetch.
\<close>

theorem serve_version_put_rejected:
  "http_method version_request = ''GET'' \<and>
   pathname version_request = basePath (quota_env ''v2'') @ ''/version.json'' \<and>
   net (quota_env ''v2'') (url version_request) = Some (descriptor ''v2'') \<and>
   ok (descriptor ''v2'') \<and>
   put_fails (quota_env ''v2'') (CACHE_NAME v1_state) (url version_request) \<and>
   caches_match (caches v1_state) (url version_request) = Some (descriptor ''v1'') \<and>
   fst (onFetch (quota_env ''v2'') version_request v1_state) = Responded (descriptor ''v1'') \<and>
   fst (onFetch (quota_env ''v2'') version_request (initial_state [])) = Responded offline_response"
  by code_simp

text \<open>
  Claim C6, as the code has it. A request answered from cache gets the first match of
  \<open>caches.match\<close> over all persisted generations in creation order, whatever generation
  \<open>CACHE_NAME\<close> names. The background refresh runs on the state \<open>st'\<close> the worker has
  when its fetch has settled: it leaves the pointer alone, stores only into the generation
  that \<open>CACHE_NAME\<close> names in \<open>st'\<close> (an ok response, when the storage accepts it) and
  changes no other generation.
\<close>

theorem serve_cache_first_generations:
  "(\<forall>g r. caches_match_in (caches st) (url req) = Some (g, r) \<longrightarrow>
      serve_cache_first e req st = (Responded r, emit (Fetch (url req)) st) \<and>
      (\<exists>pre c post. caches st = pre @ (g, c) # post \<and> map_of c (url req) = Some r \<and>
                     list_all (\<lambda>p. map_of (snd p) (url req) = None) pre)) \<and>
   CACHE_NAME (background_refresh e req st') = CACHE_NAME st' \<and>
   caches_delete (CACHE_NAME st') (caches (background_refresh e req st')) =
     caches_delete (CACHE_NAME st') (caches st') \<and>
   list_all (\<lambda>ev. put_target ev \<in> {None, Some (CACHE_NAME st')})
     (new_events st' (background_refresh e req st')) \<and>
   (\<forall>r. net e (url req) = Some r \<and> ok r \<and> open_error e (CACHE_NAME st') = None \<and>
        \<not> put_fails e (CACHE_NAME st') (url req) \<longrightarrow>
      map_of (the_cache (caches (background_refresh e req st')) (CACHE_NAME st')) (url req) = Some r)"
proof -
  have c1: "serve_cache_first e req st = (Responded r, emit (Fetch (url req)) st) \<and>
      (\<exists>pre c post. caches st = pre @ (g, c) # post \<and> map_of c (url req) = Some r \<and>
                     list_all (\<lambda>p. map_of (snd p) (url req) = None) pre)"
    if "caches_match_in (caches st) (url req) = Some (g, r)" for g r
    using that caches_match_in_first [OF that]
    by (simp add: serve_cache_first_def caches_match_def)
  have c2: "CACHE_NAME (background_refresh e req st') = CACHE_NAME st' \<and>
   caches_delete (CACHE_NAME st') (caches (background_refresh e req st')) =
     caches_delete (CACHE_NAME st') (caches st') \<and>
   list_all (\<lambda>ev. put_target ev \<in> {None, Some (CACHE_NAME st')})
     (new_events st' (background_refresh e req st'))"
    using store_current_frame [of e req _ st']
    by (simp add: background_refresh_def new_events_def split: option.splits)
  have c3: "map_of (the_cache (caches (background_refresh e req st')) (CACHE_NAME st')) (url req) = Some r"
    if "net e (url req) = Some r \<and> ok r \<and> open_error e (CACHE_NAME st') = None \<and>
        \<not> put_fails e (CACHE_NAME st') (url req)" for r
    using that
    by (simp add: background_refresh_def store_current_def emit_def Let_def the_cache_put_open)
  from c1 c2 c3 show ?thesis by blast
qed

theorem serve_cache_first_generations_witness:
  "caches_match_in (caches restarted_state) (url style_request) =
     Some (''totem-cache-v1'', page ''old css'') \<and>
   serve_cache_first (online_env ''v1'') style_request restarted_state =
     (Responded (page ''old css''), emit (Fetch (url style_request)) restarted_state) \<and>
   net (online_env ''v1'') (url style_request) = Some (page ''fresh'') \<and>
   ok (page ''fresh'') \<and>
   open_error (online_env ''v1'') (CACHE_NAME restarted_state) = None \<and>
   \<not> put_fails (online_env ''v1'') (CACHE_NAME restarted_state) (url style_request) \<and>
   map_of (the_cache (caches (background_refresh (online_env ''v1'') style_request restarted_state))
             (CACHE_NAME restarted_state)) (url style_request) = Some (page ''fresh'') \<and>
   caches_delete (CACHE_NAME restarted_state)
     (caches (background_refresh (online_env ''v1'') style_request restarted_state)) =
     caches_delete (CACHE_NAME restarted_state) (caches restarted_state)"
proof -
  have m: "caches_match_in (caches restarted_state) (url style_request) =
     Some (''totem-cache-v1'', page ''old css'')" by code_simp
  have n: "net (online_env ''v1'') (url style_request) = Some (page ''fresh'') \<and>
     ok (page ''fresh'') \<and>
     open_error (online_env ''v1'') (CACHE_NAME restarted_state) = None \<and>
     \<not> put_fails (online_env ''v1'') (CACHE_NAME restarted_state) (url style_request)"
    by code_simp
  from m n serve_cache_first_generations
    [of restarted_state style_request "online_env ''v1''" restarted_state]
  show ?thesis by blast
qed

theorem serve_cache_first_generations_counterexample:
  "CACHE_NAME restarted_state = ''totem-cache-v9'' \<and>
   caches_keys (caches restarted_state) = [''totem-cache-v1''] \<and>
   caches_match_in (caches restarted_state) (url style_request) =
     Some (''totem-cache-v1'', page ''old css'') \<and>
   onFetch (online_env ''v1'') style_request restarted_state =
     (Responded (page ''old css''), emit (Fetch (url style_request)) restarted_state) \<and>
   new_events restarted_state
     (background_refresh (online_env ''v1'') style_request
        (emit (Fetch (url style_request)) restarted_state)) =
     [Fetch ''https://kiosk.example/style.css'', CacheOpen ''totem-cache-v9'',
      CachePut ''totem-cache-v9'' ''https://kiosk.example/style.css''] \<and>
   CACHE_NAME v1_state = ''totem-cache-v1'' \<and>
   onFetch (online_env ''v2'') style_request v1_state =
     (Responded (page ''old css''), emit (Fetch (url style_request)) v1_state) \<and>
   CACHE_NAME flipped_state = ''totem-cache-v2'' \<and>
   new_events flipped_state (background_refresh (online_env ''v2'') style_request flipped_state) =
     [CacheOpen ''totem-cache-v2'', CachePut ''totem-cache-v2'' ''https://kiosk.example/style.css'']"
  by code_simp

end
